theory Spec2Isabelle
  imports Main
begin

section \<open>Python values used by the monitor\<close>

text \<open>
  The program is one Python module, \<^verbatim>\<open>main.py\<close>. A Python \<^verbatim>\<open>str\<close> is modelled as a
  \<open>string\<close> whose characters stand for code points (the model covers text in the 8-bit
  range), a Python \<^verbatim>\<open>int\<close> as \<open>int\<close>, and a \<^verbatim>\<open>dict\<close> as an association list in
  insertion order with unique keys.
\<close>

subsection \<open>Dictionaries\<close>

type_synonym ('k, 'v) dict = "('k \<times> 'v) list"

definition dict_keys :: "('k, 'v) dict \<Rightarrow> 'k list" where
  "dict_keys d = map fst d"

text \<open>\<^verbatim>\<open>d[k] = v\<close>: an existing key keeps its position, a new key goes last.\<close>

fun dict_set :: "('k, 'v) dict \<Rightarrow> 'k \<Rightarrow> 'v \<Rightarrow> ('k, 'v) dict" where
  "dict_set [] k v = [(k, v)]"
| "dict_set ((k', v') # d) k v =
     (if k' = k then (k', v) # d else (k', v') # dict_set d k v)"

text \<open>\<^verbatim>\<open>d.update(e)\<close>, and the dict built from a sequence of pairs (later pairs win).\<close>

definition dict_update :: "('k, 'v) dict \<Rightarrow> ('k \<times> 'v) list \<Rightarrow> ('k, 'v) dict" where
  "dict_update d e = foldl (\<lambda>acc (k, v). dict_set acc k v) d e"

definition dict_of :: "('k \<times> 'v) list \<Rightarrow> ('k, 'v) dict" where
  "dict_of ps = dict_update [] ps"

subsection \<open>\<^verbatim>\<open>str(int)\<close> and \<^verbatim>\<open>int(str)\<close>\<close>

definition is_digit :: "char \<Rightarrow> bool" where
  "is_digit c = (48 \<le> (of_char c :: nat) \<and> (of_char c :: nat) \<le> 57)"

definition digit_val :: "char \<Rightarrow> nat" where
  "digit_val c = of_char c - 48"

definition digit_char :: "nat \<Rightarrow> char" where
  "digit_char d = char_of (48 + d)"

text \<open>
  The white space \<^verbatim>\<open>int\<close> skips around a literal. Below 256 these are the six ASCII
  characters tab, line feed, vertical tab, form feed, carriage return and space, and the
  two characters U+0085 and U+00A0. The separators U+001C to U+001F are not among them:
  \<^verbatim>\<open>str.strip\<close> removes those, \<^verbatim>\<open>int\<close> rejects them.
\<close>

definition is_int_space :: "char \<Rightarrow> bool" where
  "is_int_space c = ((of_char c :: nat) \<in> {9, 10, 11, 12, 13, 32, 133, 160})"

definition strip_int_space :: "string \<Rightarrow> string" where
  "strip_int_space s = rev (dropWhile is_int_space (rev (dropWhile is_int_space s)))"

fun str_nat :: "nat \<Rightarrow> string" where
  "str_nat n = (if n < 10 then [digit_char n] else str_nat (n div 10) @ [digit_char (n mod 10)])"

declare str_nat.simps [simp del]

definition py_str :: "int \<Rightarrow> string" where
  "py_str k = (if k < 0 then CHR ''-'' # str_nat (nat (- k)) else str_nat (nat k))"

text \<open>
  The digits of a decimal literal: groups of digits, single underscores allowed between
  two digits. \<open>None\<close> is Python's \<^verbatim>\<open>ValueError\<close>. The interpreter's limit on the
  number of digits of a literal is not modelled.
\<close>

fun int_digits :: "nat \<Rightarrow> string \<Rightarrow> nat option" where
  "int_digits acc [] = Some acc"
| "int_digits acc [c] = (if is_digit c then Some (10 * acc + digit_val c) else None)"
| "int_digits acc (c # d # cs) =
     (if is_digit c then int_digits (10 * acc + digit_val c) (d # cs)
      else if c = CHR ''_'' \<and> is_digit d then int_digits acc (d # cs)
      else None)"

definition int_literal :: "string \<Rightarrow> nat option" where
  "int_literal s =
     (case s of [] \<Rightarrow> None | c # cs \<Rightarrow> if is_digit c then int_digits 0 s else None)"

definition py_int :: "string \<Rightarrow> int option" where
  "py_int s =
     (case strip_int_space s of
        [] \<Rightarrow> None
      | c # cs \<Rightarrow>
          if c = CHR ''-'' then map_option (\<lambda>n. - int n) (int_literal cs)
          else if c = CHR ''+'' then map_option int (int_literal cs)
          else map_option int (int_literal (c # cs)))"

subsection \<open>JSON values\<close>

text \<open>
  A JSON document, and the Python value \<^verbatim>\<open>json.load\<close> makes of one. A float is
  carried by its \<^verbatim>\<open>repr\<close>. An object of a document carries its members in document
  order, where a key may occur more than once; the dict Python builds from them is
  \<open>dict_of\<close> of that list.
\<close>

datatype json =
    JNull
  | JBool bool
  | JInt int
  | JFloat string
  | JStr string
  | JArr "json list"
  | JObj "(string \<times> json) list"

text \<open>
  The value \<^verbatim>\<open>json.load\<close> returns for a document: at every depth an object becomes
  the dict of its members, so that of a repeated key the last value stays, at the place
  of the first. The limits of the interpreter are not modelled: a document nested deeper
  than the recursion limit, or holding a number with more digits than \<^verbatim>\<open>int\<close>
  accepts, is outside the model.
\<close>

primrec json_load :: "json \<Rightarrow> json" where
  "json_load JNull = JNull"
| "json_load (JBool b) = JBool b"
| "json_load (JInt i) = JInt i"
| "json_load (JFloat r) = JFloat r"
| "json_load (JStr s) = JStr s"
| "json_load (JArr xs) = JArr (map json_load xs)"
| "json_load (JObj ms) = JObj (dict_of (map (map_prod id json_load) ms))"

subsection \<open>Exceptions\<close>

datatype exn_class =
    Exception
  | ValueError
  | JSONDecodeError
  | UnicodeDecodeError
  | KeyError
  | TypeError
  | AttributeError
  | RequestException
  | HTTPError
  | ConnectionError
  | Timeout

text \<open>
  An exception object: one raised by a library call, with its class and its text, or one
  of the four the builtins raise in this program. All of them derive from
  \<^verbatim>\<open>Exception\<close>; an interrupt of the process (\<^verbatim>\<open>KeyboardInterrupt\<close>) is outside
  the model.
\<close>

datatype exn =
    Raised_by_library exn_class string
  | Invalid_literal string
  | Not_iterable json
  | No_items json
  | Missing_key int

fun class_of :: "exn \<Rightarrow> exn_class" where
  "class_of (Raised_by_library c msg) = c"
| "class_of (Invalid_literal s) = ValueError"
| "class_of (Not_iterable v) = TypeError"
| "class_of (No_items v) = AttributeError"
| "class_of (Missing_key k) = KeyError"

text \<open>\<open>is_subclass c d\<close>: class \<open>c\<close> is \<open>d\<close> or derives from it.\<close>

fun is_subclass :: "exn_class \<Rightarrow> exn_class \<Rightarrow> bool" where
  "is_subclass c Exception = True"
| "is_subclass JSONDecodeError ValueError = True"
| "is_subclass UnicodeDecodeError ValueError = True"
| "is_subclass HTTPError RequestException = True"
| "is_subclass ConnectionError RequestException = True"
| "is_subclass Timeout RequestException = True"
| "is_subclass c d = (c = d)"

text \<open>\<^verbatim>\<open>except (C1, ..., Cn)\<close> catches \<open>e\<close>.\<close>

definition caught :: "exn \<Rightarrow> exn_class list \<Rightarrow> bool" where
  "caught e cs = list_ex (is_subclass (class_of e)) cs"

section \<open>The world a run acts on\<close>

text \<open>
  A printed line is a sequence of pieces: literal text, or the text Python renders for an
  exception (\<^verbatim>\<open>{e}\<close> in an f-string), which the model keeps symbolic.
\<close>

datatype frag = Lit string | Str_of exn

text \<open>
  What a run does to the outside, in the order it does it: lines on standard output,
  tracebacks on standard error, the opening of the state file for writing,
  \<^verbatim>\<open>json.dump\<close> into it, HTTP requests (GET with its headers, POST with its JSON
  payload) and the pause between two notifications.
\<close>

datatype event =
    Print "frag list"
  | Print_exc exn
  | Open_w
  | Json_dump json
  | Http_get string "(string \<times> string) list"
  | Http_post string "(string \<times> string) list"
  | Sleep

text \<open>
  The state file \<^verbatim>\<open>known_listings.json\<close>: absent, present with a content on which
  \<^verbatim>\<open>json.load\<close> raises, or present with the text of a JSON document. A file that
  exists can be opened and read, and the file can always be written.
\<close>

datatype file_state = Absent | Malformed exn | Document json

record world =
  state_file :: file_state
  trace :: "event list"
  sent :: nat

text \<open>
  An HTTP call either raises (no response: connection error, timeout) or returns a
  response, on which \<^verbatim>\<open>raise_for_status\<close> raises the given error, if any.
\<close>

datatype 'a http_result = No_response exn | Response "exn option" 'a

text \<open>
  The network of one run: the answer to the GET of the monitored page, given by the
  \<^verbatim>\<open>a\<close> elements of the parsed body that carry an \<^verbatim>\<open>href\<close> (the attribute and the
  stripped text of each, in document order), and the answer to the \<open>i\<close>-th POST to the
  Telegram endpoint. The field \<open>sent\<close> of the world counts the POSTs made so far.
\<close>

record network =
  page :: "(string \<times> string) list http_result"
  telegram :: "nat \<Rightarrow> unit http_result"

record config =
  url :: string
  bot_token :: string
  chat_id :: string

definition emit :: "event \<Rightarrow> world \<Rightarrow> world" where
  "emit ev w = w\<lparr>trace := trace w @ [ev]\<rparr>"

definition print_line :: "frag list \<Rightarrow> world \<Rightarrow> world" where
  "print_line fs w = emit (Print fs) w"

definition py_len :: "'a list \<Rightarrow> string" where
  "py_len xs = py_str (int (length xs))"

section \<open>Configuration\<close>

text \<open>\<^verbatim>\<open>get_required_env\<close>: \<open>Inl n\<close> is \<^verbatim>\<open>sys.exit(n)\<close>.\<close>

definition get_required_env ::
  "string \<Rightarrow> string \<Rightarrow> (string \<rightharpoonup> string) \<Rightarrow> world \<Rightarrow> (nat + string) \<times> world" where
  "get_required_env key description environ w =
     (let val = environ key in
      if val = None \<or> val = Some [] then
        (let error_msg =
               ''Required environment variable '' @ [CHR 0x27] @ key @ [CHR 0x27] @ '' is not set.'';
             error_msg = (if description \<noteq> [] then error_msg @ '' '' @ description else error_msg);
             w1 = print_line [Lit ''ERROR: '', Lit error_msg] w;
             w2 = print_line [Lit ''Please set this as a GitHub Secret or in your .env file.''] w1
         in (Inl 1, w2))
      else (case val of Some v \<Rightarrow> (Inr v, w) | None \<Rightarrow> (Inl 1, w)))"

section \<open>Listing extractor\<close>

type_synonym listings = "(int, string \<times> string) dict"

fun strip_prefix :: "string \<Rightarrow> string \<Rightarrow> string option" where
  "strip_prefix [] s = Some s"
| "strip_prefix (p # ps) [] = None"
| "strip_prefix (p # ps) (c # cs) = (if p = c then strip_prefix ps cs else None)"

text \<open>\<^verbatim>\<open>/(\d+)\<close> at the start of \<open>s\<close>: the digits matched.\<close>

definition slash_digits :: "string \<Rightarrow> string option" where
  "slash_digits s =
     (case s of
        [] \<Rightarrow> None
      | c # r \<Rightarrow> if c = CHR ''/'' \<and> takeWhile is_digit r \<noteq> [] then Some (takeWhile is_digit r) else None)"

text \<open>
  \<^verbatim>\<open>/dom(?:/dacha)?/(\d+)\<close> matched at the start of \<open>s\<close>: the optional group is tried
  first and given up when the rest does not match.
\<close>

definition match_here :: "string \<Rightarrow> string option" where
  "match_here s =
     (case strip_prefix ''/dom'' s of
        None \<Rightarrow> None
      | Some r \<Rightarrow>
          (case (case strip_prefix ''/dacha'' r of None \<Rightarrow> None | Some r' \<Rightarrow> slash_digits r') of
             Some ds \<Rightarrow> Some ds
           | None \<Rightarrow> slash_digits r))"

text \<open>\<^verbatim>\<open>re.search\<close>: the leftmost match; the result is group 1.\<close>

fun re_search :: "string \<Rightarrow> string option" where
  "re_search [] = match_here []"
| "re_search (c # cs) =
     (case match_here (c # cs) of Some ds \<Rightarrow> Some ds | None \<Rightarrow> re_search cs)"

definition startswith :: "string \<Rightarrow> string \<Rightarrow> bool" where
  "startswith s p = (strip_prefix p s \<noteq> None)"

text \<open>\<^verbatim>\<open>href.split("?")[0]\<close>\<close>

definition before_query :: "string \<Rightarrow> string" where
  "before_query href = takeWhile (\<lambda>c. c \<noteq> CHR ''?'') href"

definition listing_url :: "string \<Rightarrow> string" where
  "listing_url href =
     (if startswith href ''http'' then before_query href
      else ''https://re.kufar.by'' @ before_query href)"

text \<open>The loop over \<^verbatim>\<open>listing_links\<close>, filling \<^verbatim>\<open>listings\<close>.\<close>

fun collect_listings :: "(string \<times> string) list \<Rightarrow> listings \<Rightarrow> exn + listings" where
  "collect_listings [] acc = Inr acc"
| "collect_listings ((href, title) # links) acc =
     (case re_search href of
        None \<Rightarrow> collect_listings links acc
      | Some ds \<Rightarrow>
          (case py_int ds of
             None \<Rightarrow> Inl (Invalid_literal ds)
           | Some listing_id \<Rightarrow>
               collect_listings links (dict_set acc listing_id (title, listing_url href))))"

definition user_agent :: "(string \<times> string) list" where
  "user_agent = [(''User-Agent'', ''Mozilla/5.0 (Windows NT 10.0; Win64; x64)'')]"

definition get_all_listings :: "config \<Rightarrow> network \<Rightarrow> world \<Rightarrow> (exn + listings) \<times> world" where
  "get_all_listings cfg net w =
     (let w1 = emit (Http_get (url cfg) user_agent) w in
      case page net of
        No_response e \<Rightarrow> (Inl e, w1)
      | Response status_error anchors \<Rightarrow>
          (case status_error of
             Some e \<Rightarrow> (Inl e, w1)
           | None \<Rightarrow>
               (collect_listings (filter (\<lambda>(href, title). re_search href \<noteq> None) anchors) [], w1)))"

section \<open>Known-set store\<close>

type_synonym known = "(int, json list) dict"

text \<open>\<^verbatim>\<open>data.items()\<close> and \<^verbatim>\<open>tuple(v)\<close> on a value \<^verbatim>\<open>json.load\<close> returned.\<close>

definition py_items :: "json \<Rightarrow> exn + (string \<times> json) list" where
  "py_items v = (case v of JObj ms \<Rightarrow> Inr (dict_of ms) | _ \<Rightarrow> Inl (No_items v))"

definition py_tuple :: "json \<Rightarrow> exn + json list" where
  "py_tuple v =
     (case v of
        JArr xs \<Rightarrow> Inr xs
      | JStr s \<Rightarrow> Inr (map (\<lambda>c. JStr [c]) s)
      | JObj ms \<Rightarrow> Inr (map (\<lambda>(k, x). JStr k) (dict_of ms))
      | _ \<Rightarrow> Inl (Not_iterable v))"

text \<open>\<^verbatim>\<open>{int(k): tuple(v) for k, v in data.items()}\<close>: the key is evaluated first.\<close>

fun int_keyed :: "(string \<times> json) list \<Rightarrow> known \<Rightarrow> exn + known" where
  "int_keyed [] acc = Inr acc"
| "int_keyed ((k, v) # items) acc =
     (case py_int k of
        None \<Rightarrow> Inl (Invalid_literal k)
      | Some i \<Rightarrow>
          (case py_tuple v of
             Inl e \<Rightarrow> Inl e
           | Inr t \<Rightarrow> int_keyed items (dict_set acc i t)))"

text \<open>The body of the \<^verbatim>\<open>try\<close> in \<^verbatim>\<open>load_known_listings\<close>, for a file that exists.\<close>

definition read_known :: "file_state \<Rightarrow> exn + known" where
  "read_known f =
     (case f of
        Absent \<Rightarrow> Inr []
      | Malformed e \<Rightarrow> Inl e
      | Document document \<Rightarrow>
          (case py_items (json_load document) of
             Inl e \<Rightarrow> Inl e
           | Inr items \<Rightarrow> int_keyed items []))"

definition load_known_listings :: "world \<Rightarrow> (exn + known) \<times> world" where
  "load_known_listings w =
     (if state_file w \<noteq> Absent then
        (case read_known (state_file w) of
           Inr d \<Rightarrow> (Inr d, w)
         | Inl e \<Rightarrow>
             if caught e [JSONDecodeError, ValueError, KeyError]
             then (Inr [], print_line [Lit ''Error loading known listings: '', Str_of e,
                                       Lit ''. Starting fresh.''] w)
             else (Inl e, w))
      else (Inr [], w))"

text \<open>
  \<^verbatim>\<open>open(KNOWN_LISTINGS_FILE, "w")\<close> leaves the file existing and empty, on which
  \<^verbatim>\<open>json.load\<close> raises; \<^verbatim>\<open>json.dump\<close> then writes the document.
\<close>

definition empty_file :: file_state where
  "empty_file = Malformed (Raised_by_library JSONDecodeError ''Expecting value: line 1 column 1 (char 0)'')"

definition open_w :: "world \<Rightarrow> world" where
  "open_w w = emit Open_w (w\<lparr>state_file := empty_file\<rparr>)"

definition json_dump :: "json \<Rightarrow> world \<Rightarrow> world" where
  "json_dump data w = emit (Json_dump data) (w\<lparr>state_file := Document data\<rparr>)"

text \<open>\<^verbatim>\<open>{str(k): list(v) for k, v in listings.items()}\<close>\<close>

definition string_keyed :: "known \<Rightarrow> (string, json) dict" where
  "string_keyed listings = dict_of (map (\<lambda>(k, v). (py_str k, JArr v)) listings)"

definition save_known_listings :: "known \<Rightarrow> world \<Rightarrow> world" where
  "save_known_listings listings w =
     (let data = string_keyed listings
      in json_dump (JObj data) (open_w w))"

section \<open>Notifier\<close>

text \<open>
  \<^verbatim>\<open>send_telegram_message\<close>: one POST (with \<^verbatim>\<open>timeout=10\<close>), then
  \<^verbatim>\<open>raise_for_status\<close>, both inside \<^verbatim>\<open>try ... except Exception\<close>.
\<close>

definition send_telegram_message ::
  "config \<Rightarrow> network \<Rightarrow> string \<Rightarrow> world \<Rightarrow> (exn + bool) \<times> world" where
  "send_telegram_message cfg net text w =
     (if bot_token cfg = [] \<or> chat_id cfg = [] then
        (let w1 = print_line [Lit ''Telegram bot not configured. Set TELEGRAM_BOT_TOKEN and TELEGRAM_CHAT_ID environment variables.''] w;
             w2 = print_line [Lit ''[Telegram message would be: '', Lit text, Lit '']''] w1
         in (Inr False, w2))
      else
        (let api_url = ''https://api.telegram.org/bot'' @ bot_token cfg @ ''/sendMessage'';
             payload = [(''chat_id'', chat_id cfg), (''text'', text), (''parse_mode'', ''HTML'')];
             w1 = emit (Http_post api_url payload) (w\<lparr>sent := sent w + 1\<rparr>);
             failure = (case telegram net (sent w) of
                          No_response e \<Rightarrow> Some e
                        | Response status_error body \<Rightarrow> status_error)
         in case failure of
              None \<Rightarrow> (Inr True, print_line [Lit ''Telegram message sent successfully''] w1)
            | Some e \<Rightarrow>
                if caught e [Exception]
                then (Inr False,
                      emit (Print_exc e)
                        (print_line [Lit ''Error sending Telegram message: '', Str_of e] w1))
                else (Inl e, w1)))"

definition notify :: "config \<Rightarrow> network \<Rightarrow> string \<Rightarrow> string \<Rightarrow> string \<Rightarrow> world \<Rightarrow> (exn + unit) \<times> world" where
  "notify cfg net title message link w =
     (let text = ''<b>'' @ title @ ''</b>'' @ [CHR 0x0A] @ message @ [CHR 0x0A] @
                 ''<a href='' @ [CHR 0x27] @ link @ [CHR 0x27] @ ''>View Listing</a>''
      in case send_telegram_message cfg net text w of
           (Inl e, w1) \<Rightarrow> (Inl e, w1)
         | (Inr delivered, w1) \<Rightarrow> (Inr (), w1))"

section \<open>Change detector and run controller\<close>

text \<open>
  The two literals of the notification hold code points beyond the 8-bit range; they are
  written as their UTF-8 bytes.
\<close>

definition notice_heading :: string where
  "notice_heading = map char_of
     [240, 159, 143, 160, 32, 60, 98, 62, 208, 157, 208, 190, 208, 178, 209, 139, 208, 185,
      32, 208, 180, 208, 190, 208, 188, 32, 208, 191, 208, 190, 209, 143, 208, 178, 208,
      184, 208, 187, 209, 129, 209, 143, 32, 208, 189, 208, 176, 32, 75, 117, 102, 97, 114,
      33, 60, 47, 98, 62, 10, 10 :: nat]"

definition notice_view :: string where
  "notice_view = map char_of
     [208, 159, 209, 128, 208, 190, 209, 129, 208, 188, 208, 190, 209, 130, 209, 128, 208,
      181, 209, 130, 209, 140 :: nat]"

definition message_text :: "string \<Rightarrow> string" where
  "message_text link =
     notice_heading @ ''<a href='' @ [CHR 0x27] @ link @ [CHR 0x27] @ ''>'' @ notice_view @ ''</a>''"

text \<open>A fetched value \<^verbatim>\<open>(title, url)\<close> as the tuple the known set stores.\<close>

definition as_tuple :: "string \<times> string \<Rightarrow> json list" where
  "as_tuple v = [JStr (fst v), JStr (snd v)]"

definition as_known :: "listings \<Rightarrow> known" where
  "as_known d = map (\<lambda>(k, v). (k, as_tuple v)) d"

text \<open>The loop that finds the listings in \<^verbatim>\<open>current_listings\<close> but not in \<^verbatim>\<open>known_listings\<close>.\<close>

definition new_listings :: "known \<Rightarrow> listings \<Rightarrow> listings" where
  "new_listings known_listings current_listings =
     foldl (\<lambda>new (listing_id, title, link).
              if listing_id \<notin> set (dict_keys known_listings)
              then dict_set new listing_id (title, link) else new)
       [] current_listings"

text \<open>\<^verbatim>\<open>sorted(ks, reverse=True)\<close>\<close>

definition sorted_reverse :: "int list \<Rightarrow> int list" where
  "sorted_reverse ks = rev (sort ks)"

text \<open>The notification loop over the sorted identifiers.\<close>

fun notify_each :: "config \<Rightarrow> network \<Rightarrow> listings \<Rightarrow> int list \<Rightarrow> world \<Rightarrow> (exn + unit) \<times> world" where
  "notify_each cfg net new [] w = (Inr (), w)"
| "notify_each cfg net new (listing_id # ids) w =
     (case map_of new listing_id of
        None \<Rightarrow> (Inl (Missing_key listing_id), w)
      | Some (title, link) \<Rightarrow>
          (case send_telegram_message cfg net (message_text link)
                  (print_line [Lit ''New listing found: ID '', Lit (py_str listing_id),
                               Lit '' - ('', Lit link, Lit '')''] w) of
             (Inl e, w2) \<Rightarrow> (Inl e, w2)
           | (Inr delivered, w2) \<Rightarrow> notify_each cfg net new ids (emit Sleep w2)))"

text \<open>The body of the \<^verbatim>\<open>try\<close> in \<^verbatim>\<open>main\<close>.\<close>

definition check_listings :: "config \<Rightarrow> network \<Rightarrow> known \<Rightarrow> world \<Rightarrow> (exn + unit) \<times> world" where
  "check_listings cfg net known_listings w =
     (case get_all_listings cfg net w of
        (Inl e, w1) \<Rightarrow> (Inl e, w1)
      | (Inr current_listings, w1) \<Rightarrow>
          (let w2 = print_line [Lit ''Found '', Lit (py_len current_listings),
                                Lit '' listings on the page.''] w1;
               new = new_listings known_listings current_listings
           in if new \<noteq> [] then
                (case notify_each cfg net new (sorted_reverse (dict_keys new))
                        (print_line [Lit ''Found '', Lit (py_len new), Lit '' new listing(s)!''] w2) of
                   (Inl e, w4) \<Rightarrow> (Inl e, w4)
                 | (Inr done_all, w4) \<Rightarrow>
                     (let merged = dict_update known_listings (as_known new);
                          w5 = save_known_listings merged w4
                      in (Inr (), print_line [Lit ''Updated known listings. Total: '',
                                              Lit (py_len merged)] w5)))
              else
                (Inr (), save_known_listings known_listings
                           (print_line [Lit ''No new listings found.''] w2))))"

datatype outcome = Returned | Raised exn | Exited nat

definition main :: "config \<Rightarrow> network \<Rightarrow> world \<Rightarrow> outcome \<times> world" where
  "main cfg net w =
     (case load_known_listings w of
        (Inl e, w1) \<Rightarrow> (Raised e, w1)
      | (Inr known_listings, w1) \<Rightarrow>
          if known_listings = [] then
            (case get_all_listings cfg net
                    (print_line [Lit ''First run: Saving all current listings as baseline...''] w1) of
               (Inl e, w3) \<Rightarrow> (Raised e, w3)
             | (Inr current_listings, w3) \<Rightarrow>
                 (Returned,
                  print_line [Lit ''Saved '', Lit (py_len current_listings),
                              Lit '' listing IDs. Exiting - will check for new listings on next run.'']
                    (save_known_listings (as_known current_listings) w3)))
          else
            (case check_listings cfg net known_listings
                    (print_line [Lit ''Loaded '', Lit (py_len known_listings),
                                 Lit '' known listing IDs from previous run.''] w1) of
               (Inr checked, w3) \<Rightarrow> (Returned, w3)
             | (Inl e, w3) \<Rightarrow>
                 if caught e [Exception]
                 then (Raised e,
                       emit (Print_exc e) (print_line [Lit ''Error checking listings: '', Str_of e] w3))
                 else (Raised e, w3)))"

text \<open>
  The module, run as a script: the three settings are read at import, then \<^verbatim>\<open>main()\<close>
  runs. The environment is the one \<^verbatim>\<open>load_dotenv()\<close> leaves.
\<close>

definition program :: "(string \<rightharpoonup> string) \<Rightarrow> network \<Rightarrow> world \<Rightarrow> outcome \<times> world" where
  "program environ net w =
     (case get_required_env ''URL'' ''The Kufar URL to monitor for new listings'' environ w of
        (Inl n, w1) \<Rightarrow> (Exited n, w1)
      | (Inr u, w1) \<Rightarrow>
     (case get_required_env ''TELEGRAM_BOT_TOKEN'' ''Telegram bot token from @BotFather'' environ w1 of
        (Inl n, w2) \<Rightarrow> (Exited n, w2)
      | (Inr t, w2) \<Rightarrow>
     (case get_required_env ''TELEGRAM_CHAT_ID'' ''Your Telegram chat ID from @userinfobot'' environ w2 of
        (Inl n, w3) \<Rightarrow> (Exited n, w3)
      | (Inr c, w3) \<Rightarrow> main \<lparr>url = u, bot_token = t, chat_id = c\<rparr> net w3)))"

text \<open>The exit status of the process: an uncaught exception ends it with status 1.\<close>

fun exit_status :: "outcome \<Rightarrow> nat" where
  "exit_status Returned = 0"
| "exit_status (Raised e) = 1"
| "exit_status (Exited n) = n"

section \<open>Observations on a run\<close>

text \<open>The texts of the notifications a trace holds, in the order they were sent.\<close>

fun post_text :: "event \<Rightarrow> string option" where
  "post_text (Http_post api_url payload) = map_of payload ''text''"
| "post_text ev = None"

definition posted :: "world \<Rightarrow> string list" where
  "posted w = List.map_filter post_text (trace w)"

text \<open>The events that touch the state file, and those that use the network.\<close>

fun is_file_write :: "event \<Rightarrow> bool" where
  "is_file_write Open_w = True"
| "is_file_write (Json_dump data) = True"
| "is_file_write ev = False"

fun is_request :: "event \<Rightarrow> bool" where
  "is_request (Http_get u hs) = True"
| "is_request (Http_post u p) = True"
| "is_request ev = False"

definition file_writes :: "world \<Rightarrow> event list" where
  "file_writes w = filter is_file_write (trace w)"

definition requests :: "world \<Rightarrow> event list" where
  "requests w = filter is_request (trace w)"

text \<open>The identifiers of a listing set.\<close>

definition ids :: "('k, 'v) dict \<Rightarrow> 'k set" where
  "ids d = set (dict_keys d)"

text \<open>
  What \<^verbatim>\<open>get_all_listings\<close> returns or raises on a network; it does not depend on
  the world it is called in.
\<close>

definition fetched :: "config \<Rightarrow> network \<Rightarrow> exn + listings" where
  "fetched cfg net = fst (get_all_listings cfg net \<lparr>state_file = Absent, trace = [], sent = 0\<rparr>)"

text \<open>
  The identifiers the comparison run notifies, in the order of its loop:
  \<^verbatim>\<open>sorted(new_listings.keys(), reverse=True)\<close>.
\<close>

definition reported :: "known \<Rightarrow> listings \<Rightarrow> int list" where
  "reported a b = sorted_reverse (dict_keys (new_listings a b))"

text \<open>The notifications sent between world \<open>w\<close> and a later world \<open>w'\<close>.\<close>

definition notified :: "world \<Rightarrow> world \<Rightarrow> string list" where
  "notified w w' = drop (length (posted w)) (posted w')"

text \<open>
  The world a crash leaves when it strikes \<^verbatim>\<open>save_known_listings\<close> after the file
  was opened for writing and before \<^verbatim>\<open>json.dump\<close> has written the document.
\<close>

definition interrupted_save :: "known \<Rightarrow> world \<Rightarrow> world" where
  "interrupted_save listings w = open_w w"

text \<open>
  The values a known set stores are values as \<^verbatim>\<open>json.load\<close> returns them, or tuples
  of strings: \<^verbatim>\<open>json.load\<close> reads each of them back as it is.
\<close>

definition json_values :: "known \<Rightarrow> bool" where
  "json_values d = list_all (\<lambda>(k, t). list_all (\<lambda>x. json_load x = x) t) d"

text \<open>\<^verbatim>\<open>json.load\<close> returns on the file (it exists and holds a JSON document).\<close>

definition parseable :: "file_state \<Rightarrow> bool" where
  "parseable f = (case f of Document data \<Rightarrow> True | _ \<Rightarrow> False)"

text \<open>The notification text for identifier \<open>k\<close> of the listing set \<open>d\<close>.\<close>

definition notification_for :: "listings \<Rightarrow> int \<Rightarrow> string option" where
  "notification_for d k = map_option (\<lambda>(title, link). message_text link) (map_of d k)"

section \<open>Example inputs\<close>

text \<open>
  The scenario of the specification: the state file knows 100 and 101, the page lists
  100, 101, 103 and 102.
\<close>

definition example_cfg :: config where
  "example_cfg = \<lparr>url = ''https://re.kufar.by/l/r~minsk/dom'', bot_token = ''123:abc'', chat_id = ''42''\<rparr>"

definition example_known :: known where
  "example_known =
     [(100, [JStr ''House A'', JStr ''https://re.kufar.by/dom/100'']),
      (101, [JStr ''House B'', JStr ''https://re.kufar.by/dom/101''])]"

definition example_world :: world where
  "example_world =
     \<lparr>state_file = Document (JObj
        [(''100'', JArr [JStr ''House A'', JStr ''https://re.kufar.by/dom/100'']),
         (''101'', JArr [JStr ''House B'', JStr ''https://re.kufar.by/dom/101''])]),
      trace = [], sent = 0\<rparr>"

definition fresh_world :: world where
  "fresh_world = \<lparr>state_file = Absent, trace = [], sent = 0\<rparr>"

definition example_page :: "(string \<times> string) list" where
  "example_page =
     [(''/dom/100?rank=1'', ''House A''), (''/about'', ''About''), (''/dom/101'', ''House B''),
      (''https://re.kufar.by/dom/103?rank=3'', ''House C''), (''/dom/dacha/102'', ''Dacha D'')]"

definition example_listings :: listings where
  "example_listings =
     [(100, ''House A'', ''https://re.kufar.by/dom/100''),
      (101, ''House B'', ''https://re.kufar.by/dom/101''),
      (103, ''House C'', ''https://re.kufar.by/dom/103''),
      (102, ''Dacha D'', ''https://re.kufar.by/dom/dacha/102'')]"

definition example_net :: network where
  "example_net = \<lparr>page = Response None example_page, telegram = (\<lambda>i. Response None ())\<rparr>"

text \<open>A network on which the first notification times out and the others get through.\<close>

definition flaky_net :: network where
  "flaky_net =
     \<lparr>page = Response None example_page,
      telegram = (\<lambda>i. if i = 0 then No_response (Raised_by_library Timeout ''Read timed out.'')
                      else Response None ())\<rparr>"



text \<open>
  A state file that is valid JSON with a structurally invalid entry: the value of key
  \<^verbatim>\<open>"1"\<close> is the number 5 where a \<^verbatim>\<open>[title, url]\<close> array belongs.
\<close>

definition broken_world :: world where
  "broken_world = \<lparr>state_file = Document (JObj [(''1'', JInt 5)]), trace = [], sent = 0\<rparr>"

text \<open>An environment in which the bot token is set to the empty string.\<close>

definition example_environ :: "string \<rightharpoonup> string" where
  "example_environ =
     [''URL'' \<mapsto> ''https://re.kufar.by/l/r~minsk/dom'', ''TELEGRAM_BOT_TOKEN'' \<mapsto> [],
      ''TELEGRAM_CHAT_ID'' \<mapsto> ''42'']"

section \<open>Properties\<close>

subsection \<open>Dictionaries\<close>

lemma dict_keys_Nil [simp]: "dict_keys [] = []"
  by (simp add: dict_keys_def)

lemma length_dict_keys [simp]: "length (dict_keys d) = length d"
  by (simp add: dict_keys_def)

lemma dict_keys_append [simp]: "dict_keys (d @ e) = dict_keys d @ dict_keys e"
  by (simp add: dict_keys_def)

lemma dict_keys_Cons [simp]: "dict_keys (p # d) = fst p # dict_keys d"
  by (simp add: dict_keys_def)

lemma dict_keys_dict_set:
  "dict_keys (dict_set d k v) = (if k \<in> set (dict_keys d) then dict_keys d else dict_keys d @ [k])"
  by (induction d) auto

lemma dict_set_fresh: "k \<notin> set (dict_keys d) \<Longrightarrow> dict_set d k v = d @ [(k, v)]"
  by (induction d) auto

lemma distinct_dict_set: "distinct (dict_keys d) \<Longrightarrow> distinct (dict_keys (dict_set d k v))"
  by (simp add: dict_keys_dict_set)

lemma dict_update_Nil [simp]: "dict_update d [] = d"
  by (simp add: dict_update_def)

lemma dict_update_Cons [simp]: "dict_update d ((k, v) # e) = dict_update (dict_set d k v) e"
  by (simp add: dict_update_def)

lemma set_dict_keys_update:
  "set (dict_keys (dict_update d e)) = set (dict_keys d) \<union> set (dict_keys e)"
  by (induction e arbitrary: d) (auto simp: dict_keys_dict_set split: if_splits)

lemma distinct_dict_update:
  "distinct (dict_keys d) \<Longrightarrow> distinct (dict_keys (dict_update d e))"
  by (induction e arbitrary: d) (auto simp: distinct_dict_set)

lemma dict_update_fresh:
  "distinct (dict_keys e) \<Longrightarrow> set (dict_keys e) \<inter> set (dict_keys d) = {} \<Longrightarrow>
   dict_update d e = d @ e"
proof (induction e arbitrary: d)
  case Nil
  then show ?case by simp
next
  case (Cons p e)
  obtain k v where p: "p = (k, v)" by (cases p)
  from Cons.prems have fresh: "k \<notin> set (dict_keys d)" and k: "k \<notin> set (dict_keys e)"
    and d: "distinct (dict_keys e)" and disj: "set (dict_keys e) \<inter> set (dict_keys d) = {}"
    by (auto simp: p)
  have "dict_update (d @ [(k, v)]) e = (d @ [(k, v)]) @ e"
    using d k disj by (intro Cons.IH) auto
  then show ?case by (simp add: p dict_set_fresh [OF fresh])
qed

lemma dict_of_distinct: "distinct (dict_keys ps) \<Longrightarrow> dict_of ps = ps"
  by (simp add: dict_of_def dict_update_fresh)

lemma set_dict_set: "set (dict_set d k v) \<subseteq> insert (k, v) (set d)"
  by (induction d) (auto split: if_splits)

lemma set_dict_update: "set (dict_update d e) \<subseteq> set d \<union> set e"
proof (induction e arbitrary: d)
  case Nil
  show ?case by simp
next
  case (Cons p e)
  obtain k v where p: "p = (k, v)" by (cases p)
  have "set (dict_update (dict_set d k v) e) \<subseteq> set (dict_set d k v) \<union> set e"
    by (rule Cons.IH)
  also have "\<dots> \<subseteq> insert (k, v) (set d) \<union> set e"
    using set_dict_set [of d k v] by auto
  finally show ?case by (auto simp: p)
qed

lemma set_dict_of: "set (dict_of ps) \<subseteq> set ps"
  using set_dict_update [of "[]" ps] by (simp add: dict_of_def)

lemma distinct_dict_of: "distinct (dict_keys (dict_of ps))"
  by (simp add: dict_of_def distinct_dict_update)

lemma dict_of_dict_of: "dict_of (dict_of ps) = dict_of ps"
  by (rule dict_of_distinct) (rule distinct_dict_of)

subsection \<open>Integers and their decimal text\<close>

lemma is_digit_digit_char: "d < 10 \<Longrightarrow> is_digit (digit_char d)"
  by (simp add: is_digit_def digit_char_def)

lemma digit_val_digit_char: "d < 10 \<Longrightarrow> digit_val (digit_char d) = d"
  by (simp add: digit_val_def digit_char_def)

lemma str_nat_digits: "\<forall>c \<in> set (str_nat n). is_digit c"
proof (induction n rule: str_nat.induct)
  case (1 n)
  show ?case
  proof (cases "n < 10")
    case True
    then show ?thesis by (subst str_nat.simps) (simp add: is_digit_digit_char)
  next
    case False
    then show ?thesis using 1 by (subst str_nat.simps) (simp add: is_digit_digit_char)
  qed
qed

lemma str_nat_nonempty: "str_nat n \<noteq> []"
  by (subst str_nat.simps) simp

lemma int_digits_all_digits:
  "\<forall>c \<in> set s. is_digit c \<Longrightarrow> int_digits acc s = Some (foldl (\<lambda>a c. 10 * a + digit_val c) acc s)"
  by (induction acc s rule: int_digits.induct) auto

lemma foldl_str_nat: "foldl (\<lambda>a c. 10 * a + digit_val c) 0 (str_nat n) = n"
proof (induction n rule: str_nat.induct)
  case (1 n)
  show ?case
  proof (cases "n < 10")
    case True
    then show ?thesis by (subst str_nat.simps) (simp add: digit_val_digit_char)
  next
    case False
    then show ?thesis using 1 by (subst str_nat.simps) (simp add: digit_val_digit_char)
  qed
qed

lemma int_literal_digits:
  "s \<noteq> [] \<Longrightarrow> \<forall>c \<in> set s. is_digit c \<Longrightarrow>
   int_literal s = Some (foldl (\<lambda>a c. 10 * a + digit_val c) 0 s)"
  by (cases s) (simp_all add: int_literal_def int_digits_all_digits)

lemma int_literal_str_nat: "int_literal (str_nat n) = Some n"
  by (simp add: int_literal_digits str_nat_nonempty str_nat_digits foldl_str_nat)

lemma digit_not_space: "is_digit c \<Longrightarrow> \<not> is_int_space c"
  by (auto simp: is_digit_def is_int_space_def)

lemma strip_int_space_id:
  "s \<noteq> [] \<Longrightarrow> \<not> is_int_space (hd s) \<Longrightarrow> \<not> is_int_space (last s) \<Longrightarrow> strip_int_space s = s"
proof -
  assume ne: "s \<noteq> []" and h: "\<not> is_int_space (hd s)" and l: "\<not> is_int_space (last s)"
  from ne h have 1: "dropWhile is_int_space s = s" by (cases s) auto
  from ne l have 2: "dropWhile is_int_space (rev s) = rev s"
    by (cases s rule: rev_cases) auto
  show ?thesis by (simp add: strip_int_space_def 1 2)
qed

lemma strip_int_space_digits: "s \<noteq> [] \<Longrightarrow> \<forall>c \<in> set s. is_digit c \<Longrightarrow> strip_int_space s = s"
  by (rule strip_int_space_id) (simp_all add: digit_not_space)

lemma strip_int_space_minus_digits:
  assumes "s \<noteq> []" "\<forall>c \<in> set s. is_digit c"
  shows "strip_int_space (CHR ''-'' # s) = CHR ''-'' # s"
proof (rule strip_int_space_id)
  show "\<not> is_int_space (hd (CHR ''-'' # s))" by (simp add: is_int_space_def)
  have "is_digit (last s)" using assms by simp
  then show "\<not> is_int_space (last (CHR ''-'' # s))" using assms(1) by (simp add: digit_not_space)
qed simp

lemma digit_not_sign: "is_digit c \<Longrightarrow> c \<noteq> CHR ''-'' \<and> c \<noteq> CHR ''+''"
  by (auto simp: is_digit_def)

lemma py_int_digits:
  assumes "s \<noteq> []" "\<forall>c \<in> set s. is_digit c"
  shows "py_int s = Some (int (foldl (\<lambda>a c. 10 * a + digit_val c) 0 s))"
proof -
  obtain c cs where s: "s = c # cs" using assms(1) by (cases s) auto
  have "is_digit c" using assms(2) s by simp
  then have "c \<noteq> CHR ''-''" "c \<noteq> CHR ''+''" using digit_not_sign by blast+
  then show ?thesis
    using int_literal_digits [OF assms] strip_int_space_digits [OF assms] by (simp add: py_int_def s)
qed

lemma py_int_py_str: "py_int (py_str k) = Some k"
proof (cases "k < 0")
  case True
  have "strip_int_space (CHR ''-'' # str_nat (nat (- k))) = CHR ''-'' # str_nat (nat (- k))"
    by (rule strip_int_space_minus_digits) (simp_all add: str_nat_nonempty str_nat_digits)
  then show ?thesis using True by (simp add: py_int_def py_str_def int_literal_str_nat)
next
  case False
  have "py_int (str_nat (nat k)) = Some (int (nat k))"
    using py_int_digits [of "str_nat (nat k)"] by (simp add: str_nat_nonempty str_nat_digits foldl_str_nat)
  then show ?thesis using False by (simp add: py_str_def)
qed

lemma inj_py_str: "inj py_str"
  by (rule inj_on_inverseI [where g = "\<lambda>s. the (py_int s)"]) (simp add: py_int_py_str)


subsection \<open>Observations of the primitive effects\<close>

lemma emit_fields [simp]:
  "state_file (emit ev w) = state_file w"
  "sent (emit ev w) = sent w"
  "trace (emit ev w) = trace w @ [ev]"
  by (simp_all add: emit_def)

lemma print_line_fields [simp]:
  "state_file (print_line fs w) = state_file w"
  "sent (print_line fs w) = sent w"
  "trace (print_line fs w) = trace w @ [Print fs]"
  by (simp_all add: print_line_def)

lemma posted_simps [simp]:
  "posted (emit ev w) = posted w @ (case post_text ev of None \<Rightarrow> [] | Some t \<Rightarrow> [t])"
  "posted (print_line fs w) = posted w"
  "posted (w\<lparr>state_file := f\<rparr>) = posted w"
  "posted (w\<lparr>sent := n\<rparr>) = posted w"
  by (simp_all add: posted_def List.map_filter_def split: option.splits)

lemma file_writes_simps [simp]:
  "file_writes (emit ev w) = file_writes w @ (if is_file_write ev then [ev] else [])"
  "file_writes (print_line fs w) = file_writes w"
  "file_writes (w\<lparr>state_file := f\<rparr>) = file_writes w"
  "file_writes (w\<lparr>sent := n\<rparr>) = file_writes w"
  by (simp_all add: file_writes_def)

lemma requests_simps [simp]:
  "requests (emit ev w) = requests w @ (if is_request ev then [ev] else [])"
  "requests (print_line fs w) = requests w"
  "requests (w\<lparr>state_file := f\<rparr>) = requests w"
  "requests (w\<lparr>sent := n\<rparr>) = requests w"
  by (simp_all add: requests_def)

subsection \<open>The store\<close>

lemma save_fields [simp]:
  "state_file (save_known_listings d w) =
     Document (JObj (string_keyed d))"
  "sent (save_known_listings d w) = sent w"
  "posted (save_known_listings d w) = posted w"
  "requests (save_known_listings d w) = requests w"
  by (simp_all add: save_known_listings_def json_dump_def open_w_def Let_def)

lemma load_fields:
  assumes "load_known_listings w = (r, w')"
  shows "state_file w' = state_file w" "sent w' = sent w" "posted w' = posted w"
    "file_writes w' = file_writes w" "requests w' = requests w"
  using assms by (auto simp: load_known_listings_def split: if_splits sum.splits)

lemma load_nonempty_world:
  assumes "load_known_listings w = (Inr d, w')" "d \<noteq> []"
  shows "w' = w"
  using assms by (auto simp: load_known_listings_def split: if_splits sum.splits)

lemma int_keyed_distinct:
  "int_keyed items acc = Inr d \<Longrightarrow> distinct (dict_keys acc) \<Longrightarrow> distinct (dict_keys d)"
  by (induction items acc rule: int_keyed.induct)
     (auto simp: distinct_dict_set split: option.splits sum.splits)

lemma load_distinct:
  assumes "load_known_listings w = (Inr d, w')"
  shows "distinct (dict_keys d)"
  using assms
  by (auto simp: load_known_listings_def read_known_def dest: int_keyed_distinct
      split: if_splits sum.splits file_state.splits)

text \<open>Values as \<^verbatim>\<open>json.load\<close> returns them are read back unchanged.\<close>

lemma json_load_idem: "json_load (json_load v) = json_load v"
proof (induction v)
  case (JArr xs)
  then show ?case by simp
next
  case (JObj ms)
  let ?X = "map (map_prod id json_load) ms"
  have "map (map_prod id json_load) (dict_of ?X) = dict_of ?X"
  proof (rule map_idI)
    fix p assume "p \<in> set (dict_of ?X)"
    then have "p \<in> set ?X" using set_dict_of by blast
    then obtain q where q: "q \<in> set ms" "p = map_prod id json_load q" by auto
    obtain k v where kv: "q = (k, v)" by (cases q)
    have "json_load (json_load v) = json_load v"
      using JObj q(1) kv by (auto simp: snds.simps)
    then show "map_prod id json_load p = p" by (simp add: q(2) kv)
  qed
  then show ?case by (simp add: dict_of_dict_of)
qed simp_all

lemma json_values_iff:
  "json_values d \<longleftrightarrow> (\<forall>p \<in> set d. \<forall>x \<in> set (snd p). json_load x = x)"
  by (auto simp: json_values_def list_all_iff)

lemma json_values_Nil [simp]: "json_values []"
  by (simp add: json_values_def)

lemma map_fixed: "map f xs = xs \<Longrightarrow> x \<in> set xs \<Longrightarrow> f x = x"
  by (induction xs) auto

lemma py_tuple_values:
  assumes "py_tuple v = Inr t" "json_load v = v" "x \<in> set t"
  shows "json_load x = x"
proof (cases v)
  case (JArr xs)
  with assms have "map json_load xs = xs" "x \<in> set xs" by (auto simp: py_tuple_def)
  then show ?thesis by (rule map_fixed)
qed (use assms in \<open>auto simp: py_tuple_def\<close>)

lemma json_values_dict_set:
  assumes "json_values d" "\<forall>x \<in> set t. json_load x = x"
  shows "json_values (dict_set d k t)"
  using assms set_dict_set [of d k t] unfolding json_values_iff by fastforce

lemma int_keyed_values:
  "int_keyed items acc = Inr d \<Longrightarrow> \<forall>p \<in> set items. json_load (snd p) = snd p \<Longrightarrow>
   json_values acc \<Longrightarrow> json_values d"
proof (induction items acc rule: int_keyed.induct)
  case (1 acc)
  then show ?case by simp
next
  case (2 k v items acc)
  from "2.prems"(1) obtain i t where i: "py_int k = Some i" and t: "py_tuple v = Inr t"
    and rest: "int_keyed items (dict_set acc i t) = Inr d"
    by (auto split: option.splits sum.splits)
  have "\<forall>x \<in> set t. json_load x = x"
    using py_tuple_values [OF t] "2.prems"(2) by simp
  then have "json_values (dict_set acc i t)"
    using "2.prems"(3) by (intro json_values_dict_set) auto
  with "2.IH" [OF i t rest] "2.prems"(2) show ?case by simp
qed

lemma py_items_values:
  assumes "py_items (json_load v) = Inr items"
  shows "\<forall>p \<in> set items. json_load (snd p) = snd p"
proof (cases v)
  case (JObj ms)
  let ?X = "map (map_prod id json_load) ms"
  from assms JObj have items: "items = dict_of ?X"
    by (simp add: py_items_def dict_of_dict_of)
  show ?thesis
  proof
    fix p assume "p \<in> set items"
    then have "p \<in> set ?X" using set_dict_of items by blast
    then obtain q where "p = map_prod id json_load q" by auto
    then show "json_load (snd p) = snd p" by (cases q) (simp add: json_load_idem)
  qed
qed (use assms in \<open>auto simp: py_items_def\<close>)

lemma load_values:
  assumes "load_known_listings w = (Inr d, w')"
  shows "json_values d"
proof (cases "state_file w")
  case (Document document)
  show ?thesis
  proof (cases "read_known (state_file w)")
    case (Inl e)
    with assms Document show ?thesis
      by (auto simp: load_known_listings_def split: if_splits)
  next
    case (Inr d')
    with assms Document have d: "d' = d" by (simp add: load_known_listings_def)
    from Inr Document obtain items where items: "py_items (json_load document) = Inr items"
      and k: "int_keyed items [] = Inr d'"
      by (auto simp: read_known_def split: sum.splits)
    show ?thesis
      using int_keyed_values [OF k py_items_values [OF items]] d by simp
  qed
qed (use assms in \<open>auto simp: load_known_listings_def read_known_def split: if_splits\<close>)

lemma json_values_as_known [simp]: "json_values (as_known b)"
  by (auto simp: json_values_iff as_known_def as_tuple_def)

lemma json_values_dict_update:
  assumes "json_values d" "json_values e"
  shows "json_values (dict_update d e)"
  using assms set_dict_update [of d e] unfolding json_values_iff by blast

lemma int_keyed_encoded:
  "distinct (dict_keys d) \<Longrightarrow> set (dict_keys d) \<inter> set (dict_keys acc) = {} \<Longrightarrow>
   int_keyed (map (\<lambda>(k, v). (py_str k, JArr v)) d) acc = Inr (acc @ d)"
proof (induction d arbitrary: acc)
  case Nil
  then show ?case by simp
next
  case (Cons p d)
  obtain k v where p: "p = (k, v)" by (cases p)
  from Cons.prems have fresh: "k \<notin> set (dict_keys acc)"
    and rest: "distinct (dict_keys d)" "set (dict_keys d) \<inter> set (dict_keys (acc @ [(k, v)])) = {}"
    by (auto simp: p)
  show ?case
    using Cons.IH [OF rest]
    by (simp add: p py_int_py_str py_tuple_def dict_set_fresh [OF fresh])
qed

lemma encoded_keys_distinct:
  "distinct (dict_keys d) \<Longrightarrow> distinct (dict_keys (map (\<lambda>(k, v). (py_str k, JArr v)) d))"
proof -
  assume "distinct (dict_keys d)"
  have "dict_keys (map (\<lambda>(k, v). (py_str k, JArr v)) d) = map py_str (dict_keys d)"
    by (induction d) auto
  then show ?thesis
    using \<open>distinct (dict_keys d)\<close> by (simp add: distinct_map inj_py_str [THEN inj_on_subset])
qed

lemma json_load_string_keyed:
  assumes "distinct (dict_keys d)" "json_values d"
  shows "json_load (JObj (string_keyed d)) = JObj (map (\<lambda>(k, v). (py_str k, JArr v)) d)"
proof -
  let ?E = "map (\<lambda>(k, v). (py_str k, JArr v)) d"
  have E: "string_keyed d = ?E"
    using assms(1) by (simp add: string_keyed_def dict_of_distinct encoded_keys_distinct)
  have same: "map (map_prod id json_load) ?E = ?E"
  proof (rule map_idI)
    fix p assume "p \<in> set ?E"
    then obtain k t where kt: "(k, t) \<in> set d" "p = (py_str k, JArr t)" by auto
    have "map json_load t = t"
      using assms(2) kt(1) by (intro map_idI) (auto simp: json_values_iff)
    then show "map_prod id json_load p = p" by (simp add: kt(2))
  qed
  have dict: "dict_of ?E = ?E"
    using assms(1) by (simp add: dict_of_distinct encoded_keys_distinct)
  have "json_load (JObj (string_keyed d)) = JObj (dict_of (map (map_prod id json_load) ?E))"
    unfolding E by (simp only: json_load.simps)
  then show ?thesis by (simp only: same dict)
qed

lemma read_known_saved:
  assumes "distinct (dict_keys d)" "json_values d"
  shows "read_known (Document (JObj (string_keyed d))) = Inr d"
proof -
  let ?E = "map (\<lambda>(k, v). (py_str k, JArr v)) d"
  have "py_items (json_load (JObj (string_keyed d))) = Inr ?E"
    using assms(1)
    by (simp only: json_load_string_keyed [OF assms])
       (simp add: py_items_def dict_of_distinct encoded_keys_distinct)
  moreover have "int_keyed ?E [] = Inr d"
    using assms(1) int_keyed_encoded [of d "[]"] by simp
  ultimately show ?thesis by (simp add: read_known_def)
qed

lemma load_saved:
  assumes "distinct (dict_keys d)" "json_values d"
  shows "load_known_listings (save_known_listings d w) = (Inr d, save_known_listings d w)"
  by (simp add: load_known_listings_def read_known_saved [OF assms])


lemma save_file_writes [simp]:
  "file_writes (save_known_listings d w) =
     file_writes w @ [Open_w, Json_dump (JObj (string_keyed d))]"
  by (simp add: save_known_listings_def json_dump_def open_w_def Let_def)

subsection \<open>The extractor\<close>

lemma collect_listings_distinct:
  "collect_listings links acc = Inr d \<Longrightarrow> distinct (dict_keys acc) \<Longrightarrow> distinct (dict_keys d)"
  by (induction links acc rule: collect_listings.induct)
     (auto simp: distinct_dict_set split: option.splits)

lemma get_all_listings_fields [simp]:
  "state_file (snd (get_all_listings cfg net w)) = state_file w"
  "sent (snd (get_all_listings cfg net w)) = sent w"
  "posted (snd (get_all_listings cfg net w)) = posted w"
  "file_writes (snd (get_all_listings cfg net w)) = file_writes w"
  "requests (snd (get_all_listings cfg net w)) = requests w @ [Http_get (url cfg) user_agent]"
  by (simp_all add: get_all_listings_def Let_def split: http_result.splits option.splits)

lemma get_all_listings_result: "fst (get_all_listings cfg net w) = fetched cfg net"
  by (simp add: get_all_listings_def fetched_def Let_def split: http_result.splits option.splits)

lemma fetched_distinct: "fetched cfg net = Inr b \<Longrightarrow> distinct (dict_keys b)"
  by (auto simp: fetched_def get_all_listings_def Let_def dest: collect_listings_distinct
      split: http_result.splits option.splits)

subsection \<open>The notifier\<close>

lemma caught_Exception [simp]: "caught e [Exception]"
  by (simp add: caught_def)

lemma send_configured:
  assumes "bot_token cfg \<noteq> []" "chat_id cfg \<noteq> []"
  shows "\<exists>b. fst (send_telegram_message cfg net text w) = Inr b"
    and "state_file (snd (send_telegram_message cfg net text w)) = state_file w"
    and "sent (snd (send_telegram_message cfg net text w)) = sent w + 1"
    and "posted (snd (send_telegram_message cfg net text w)) = posted w @ [text]"
    and "file_writes (snd (send_telegram_message cfg net text w)) = file_writes w"
  using assms
  by (auto simp: send_telegram_message_def Let_def split: http_result.splits option.splits)

subsection \<open>The new listings\<close>

lemma new_listings_filter_aux:
  "distinct (dict_keys b) \<Longrightarrow> set (dict_keys b) \<inter> set (dict_keys acc) = {} \<Longrightarrow>
   foldl (\<lambda>new (listing_id, title, link).
            if listing_id \<notin> set (dict_keys a) then dict_set new listing_id (title, link) else new)
     acc b
   = acc @ filter (\<lambda>p. fst p \<notin> set (dict_keys a)) b"
proof (induction b arbitrary: acc)
  case Nil
  then show ?case by simp
next
  case (Cons p b)
  obtain k t u where p: "p = (k, t, u)" by (cases p)
  from Cons.prems have fresh: "k \<notin> set (dict_keys acc)" and k: "k \<notin> set (dict_keys b)"
    and d: "distinct (dict_keys b)" and disj: "set (dict_keys b) \<inter> set (dict_keys acc) = {}"
    by (auto simp: p)
  show ?case
  proof (cases "k \<in> set (dict_keys a)")
    case True
    then show ?thesis using Cons.IH [OF d disj] by (simp add: p)
  next
    case False
    have "set (dict_keys b) \<inter> set (dict_keys (acc @ [(k, t, u)])) = {}"
      using disj k by auto
    from Cons.IH [OF d this] show ?thesis
      using False by (simp add: p dict_set_fresh [OF fresh])
  qed
qed

lemma new_listings_filter:
  "distinct (dict_keys b) \<Longrightarrow>
   new_listings a b = filter (\<lambda>p. fst p \<notin> set (dict_keys a)) b"
  using new_listings_filter_aux [of b "[]" a] by (simp add: new_listings_def)

lemma dict_keys_filter: "dict_keys (filter P d) = filter (\<lambda>k. P' k) (dict_keys d)"
  if "\<And>p. P p = P' (fst p)"
  using that by (induction d) auto

lemma map_of_filter_key:
  "P k \<Longrightarrow> map_of (filter (\<lambda>p. P (fst p)) d) k = map_of d k"
  by (induction d) auto

lemma new_listings_ids:
  assumes "distinct (dict_keys b)"
  shows "ids (new_listings a b) = ids b - ids a"
    and "distinct (dict_keys (new_listings a b))"
    and "k \<in> ids (new_listings a b) \<Longrightarrow> map_of (new_listings a b) k = map_of b k"
proof -
  have keys: "dict_keys (new_listings a b) = filter (\<lambda>k. k \<notin> set (dict_keys a)) (dict_keys b)"
    by (simp add: new_listings_filter [OF assms] dict_keys_filter)
  show "ids (new_listings a b) = ids b - ids a"
    by (auto simp: ids_def keys)
  show "distinct (dict_keys (new_listings a b))"
    using assms by (simp add: keys)
  show "map_of (new_listings a b) k = map_of b k" if "k \<in> ids (new_listings a b)"
  proof -
    from that have "k \<notin> set (dict_keys a)" by (simp add: ids_def keys)
    then show ?thesis
      using map_of_filter_key [of "\<lambda>k. k \<notin> set (dict_keys a)" k b]
      by (simp add: new_listings_filter [OF assms])
  qed
qed


lemma send_general:
  shows "\<exists>b. fst (send_telegram_message cfg net text w) = Inr b"
    and "state_file (snd (send_telegram_message cfg net text w)) = state_file w"
    and "file_writes (snd (send_telegram_message cfg net text w)) = file_writes w"
  by (auto simp: send_telegram_message_def Let_def split: http_result.splits option.splits)

subsection \<open>The notification loop\<close>

lemma in_ids_map_of: "k \<in> ids d \<Longrightarrow> \<exists>v. map_of d k = Some v"
  by (induction d) (auto simp: ids_def)

lemma notify_each_step:
  assumes "map_of new k = Some (t, u)"
  shows "notify_each cfg net new (k # ks) w =
         notify_each cfg net new ks
           (emit Sleep (snd (send_telegram_message cfg net (message_text u)
              (print_line [Lit ''New listing found: ID '', Lit (py_str k), Lit '' - ('',
                           Lit u, Lit '')''] w))))"
proof -
  let ?w1 = "print_line [Lit ''New listing found: ID '', Lit (py_str k), Lit '' - ('', Lit u, Lit '')''] w"
  obtain b w2 where s: "send_telegram_message cfg net (message_text u) ?w1 = (Inr b, w2)"
    using send_general(1) [of cfg net "message_text u" ?w1]
    by (cases "send_telegram_message cfg net (message_text u) ?w1") auto
  show ?thesis by (simp add: assms s)
qed

lemma notify_each_general:
  "set ks \<subseteq> ids new \<Longrightarrow>
   fst (notify_each cfg net new ks w) = Inr () \<and>
   state_file (snd (notify_each cfg net new ks w)) = state_file w \<and>
   file_writes (snd (notify_each cfg net new ks w)) = file_writes w"
proof (induction ks arbitrary: w)
  case Nil
  show ?case by simp
next
  case (Cons k ks)
  then obtain t u where v: "map_of new k = Some (t, u)"
    using in_ids_map_of [of k new] by auto
  from Cons.prems have "set ks \<subseteq> ids new" by simp
  from Cons.IH [OF this] show ?case
    by (simp add: notify_each_step [OF v] send_general del: notify_each.simps)
qed

lemma notify_each_configured:
  assumes "bot_token cfg \<noteq> []" "chat_id cfg \<noteq> []"
  shows "set ks \<subseteq> ids new \<Longrightarrow>
   sent (snd (notify_each cfg net new ks w)) = sent w + length ks \<and>
   posted (snd (notify_each cfg net new ks w)) = posted w @ List.map_filter (notification_for new) ks"
proof (induction ks arbitrary: w)
  case Nil
  show ?case by (simp add: List.map_filter_simps)
next
  case (Cons k ks)
  then obtain t u where v: "map_of new k = Some (t, u)"
    using in_ids_map_of [of k new] by auto
  from Cons.prems have "set ks \<subseteq> ids new" by simp
  from Cons.IH [OF this] show ?case
    by (simp add: notify_each_step [OF v] send_configured [OF assms] List.map_filter_simps
        notification_for_def v del: notify_each.simps)
qed

lemma map_filter_present:
  "set ks \<subseteq> ids new \<Longrightarrow> map Some (List.map_filter (notification_for new) ks) = map (notification_for new) ks"
proof (induction ks)
  case Nil
  show ?case by (simp add: List.map_filter_simps)
next
  case (Cons k ks)
  then obtain v where "map_of new k = Some v" using in_ids_map_of [of k new] by auto
  with Cons show ?case by (simp add: List.map_filter_simps notification_for_def)
qed

subsection \<open>Sorting the new identifiers\<close>

lemma sorted_reverse_Nil [simp]: "sorted_reverse [] = []"
  by (simp add: sorted_reverse_def)

lemma sorted_reverse_set [simp]: "set (sorted_reverse ks) = set ks"
  by (simp add: sorted_reverse_def)

lemma sorted_reverse_length [simp]: "length (sorted_reverse ks) = length ks"
  by (simp add: sorted_reverse_def)

lemma sorted_reverse_distinct [simp]: "distinct (sorted_reverse ks) = distinct ks"
  by (simp add: sorted_reverse_def)

lemma sorted_reverse_descending:
  assumes "distinct ks"
  shows "sorted_wrt (\<lambda>x y. x > y) (sorted_reverse ks)"
proof -
  have "sorted_wrt (<) (sort ks)"
    using assms by (simp add: strict_sorted_iff)
  then show ?thesis
    by (simp add: sorted_reverse_def sorted_wrt_rev)
qed


subsection \<open>One run\<close>

lemma get_all_listings_run:
  obtains w1 where "get_all_listings cfg net w = (fetched cfg net, w1)"
    and "state_file w1 = state_file w" and "sent w1 = sent w" and "posted w1 = posted w"
    and "file_writes w1 = file_writes w"
    and "requests w1 = requests w @ [Http_get (url cfg) user_agent]"
proof
  show "get_all_listings cfg net w = (fetched cfg net, snd (get_all_listings cfg net w))"
    by (simp add: prod_eq_iff get_all_listings_result)
qed simp_all

lemma notify_each_run:
  assumes "set ks \<subseteq> ids new"
  obtains w' where "notify_each cfg net new ks w = (Inr (), w')"
    and "state_file w' = state_file w" and "file_writes w' = file_writes w"
    and "bot_token cfg \<noteq> [] \<Longrightarrow> chat_id cfg \<noteq> [] \<Longrightarrow>
         sent w' = sent w + length ks \<and>
         posted w' = posted w @ List.map_filter (notification_for new) ks"
proof
  show "notify_each cfg net new ks w = (Inr (), snd (notify_each cfg net new ks w))"
    using notify_each_general [OF assms, of cfg net w] by (simp add: prod_eq_iff)
qed (simp_all add: notify_each_general [OF assms] notify_each_configured [OF _ _ assms])

lemma as_known_Nil [simp]: "as_known [] = []"
  by (simp add: as_known_def)

lemma check_listings_general:
  assumes "fetched cfg net = Inr b"
  shows "fst (check_listings cfg net a w) = Inr ()"
    and "state_file (snd (check_listings cfg net a w)) =
           Document (JObj (string_keyed (dict_update a (as_known (new_listings a b)))))"
    and "file_writes (snd (check_listings cfg net a w)) =
           file_writes w @ [Open_w, Json_dump (JObj (string_keyed (dict_update a (as_known (new_listings a b)))))]"
proof -
  let ?new = "new_listings a b"
  let ?ks = "sorted_reverse (dict_keys ?new)"
  have ks: "set ?ks \<subseteq> ids ?new" by (simp add: ids_def)
  obtain w1 where g: "get_all_listings cfg net w = (Inr b, w1)"
    and w1: "state_file w1 = state_file w" "file_writes w1 = file_writes w"
    using get_all_listings_run [of cfg net w] assms by metis
  let ?w3 = "print_line [Lit ''Found '', Lit (py_len ?new), Lit '' new listing(s)!'']
     (print_line [Lit ''Found '', Lit (py_len b), Lit '' listings on the page.''] w1)"
  obtain w4 where n: "notify_each cfg net ?new ?ks ?w3 = (Inr (), w4)"
    and w4: "state_file w4 = state_file ?w3" "file_writes w4 = file_writes ?w3"
    using notify_each_run [OF ks, of cfg net ?w3] by metis
  show "fst (check_listings cfg net a w) = Inr ()"
    by (simp add: check_listings_def g n Let_def)
  show "state_file (snd (check_listings cfg net a w)) =
           Document (JObj (string_keyed (dict_update a (as_known ?new))))"
    by (simp add: check_listings_def g n Let_def)
  show "file_writes (snd (check_listings cfg net a w)) =
           file_writes w @ [Open_w, Json_dump (JObj (string_keyed (dict_update a (as_known ?new))))]"
    by (simp add: check_listings_def g n Let_def w1 w4)
qed

lemma check_listings_configured:
  assumes "fetched cfg net = Inr b" "bot_token cfg \<noteq> []" "chat_id cfg \<noteq> []"
  shows "posted (snd (check_listings cfg net a w)) =
           posted w @ List.map_filter (notification_for (new_listings a b))
                        (sorted_reverse (dict_keys (new_listings a b)))"
    and "sent (snd (check_listings cfg net a w)) = sent w + length (new_listings a b)"
proof -
  let ?new = "new_listings a b"
  let ?ks = "sorted_reverse (dict_keys ?new)"
  have ks: "set ?ks \<subseteq> ids ?new" by (simp add: ids_def)
  obtain w1 where g: "get_all_listings cfg net w = (Inr b, w1)"
    and w1: "sent w1 = sent w" "posted w1 = posted w"
    using get_all_listings_run [of cfg net w] assms(1) by metis
  let ?w3 = "print_line [Lit ''Found '', Lit (py_len ?new), Lit '' new listing(s)!'']
     (print_line [Lit ''Found '', Lit (py_len b), Lit '' listings on the page.''] w1)"
  obtain w4 where n: "notify_each cfg net ?new ?ks ?w3 = (Inr (), w4)"
    and w4: "sent w4 = sent ?w3 + length ?ks"
      "posted w4 = posted ?w3 @ List.map_filter (notification_for ?new) ?ks"
    using notify_each_run [OF ks, of cfg net ?w3] assms(2,3) by metis
  show "posted (snd (check_listings cfg net a w)) = posted w @ List.map_filter (notification_for ?new) ?ks"
    by (simp add: check_listings_def g n Let_def w1 w4 List.map_filter_simps)
  show "sent (snd (check_listings cfg net a w)) = sent w + length ?new"
  proof -
    have "length ?ks = length ?new" by (simp add: dict_keys_def)
    then show ?thesis by (simp add: check_listings_def g n Let_def w1 w4)
  qed
qed

lemma check_listings_failed:
  assumes "fetched cfg net = Inl e"
  shows "fst (check_listings cfg net a w) = Inl e"
    and "state_file (snd (check_listings cfg net a w)) = state_file w"
    and "file_writes (snd (check_listings cfg net a w)) = file_writes w"
    and "posted (snd (check_listings cfg net a w)) = posted w"
proof -
  obtain w1 where g: "get_all_listings cfg net w = (Inl e, w1)"
    and w1: "state_file w1 = state_file w" "file_writes w1 = file_writes w" "posted w1 = posted w"
    using get_all_listings_run [of cfg net w] assms by metis
  show "fst (check_listings cfg net a w) = Inl e"
    "state_file (snd (check_listings cfg net a w)) = state_file w"
    "file_writes (snd (check_listings cfg net a w)) = file_writes w"
    "posted (snd (check_listings cfg net a w)) = posted w"
    by (simp_all add: check_listings_def g w1)
qed


lemma check_listings_nothing_new:
  assumes "fetched cfg net = Inr b" "new_listings a b = []"
  shows "posted (snd (check_listings cfg net a w)) = posted w"
    and "requests (snd (check_listings cfg net a w)) = requests w @ [Http_get (url cfg) user_agent]"
    and "state_file (snd (check_listings cfg net a w)) = Document (JObj (string_keyed a))"
proof -
  obtain w1 where g: "get_all_listings cfg net w = (Inr b, w1)"
    and w1: "posted w1 = posted w" "requests w1 = requests w @ [Http_get (url cfg) user_agent]"
    using get_all_listings_run [of cfg net w] assms(1) by metis
  show "posted (snd (check_listings cfg net a w)) = posted w"
    "requests (snd (check_listings cfg net a w)) = requests w @ [Http_get (url cfg) user_agent]"
    "state_file (snd (check_listings cfg net a w)) = Document (JObj (string_keyed a))"
    by (simp_all add: check_listings_def g assms(2) w1)
qed

lemma load_of_saved_state:
  assumes "state_file w = Document (JObj (string_keyed d))" "distinct (dict_keys d)"
    and "json_values d"
  shows "load_known_listings w = (Inr d, w)"
  by (simp add: load_known_listings_def assms(1) read_known_saved [OF assms(2,3)])

lemma load_pair:
  assumes "fst (load_known_listings w) = Inr a"
  obtains w1 where "load_known_listings w = (Inr a, w1)"
    and "state_file w1 = state_file w" and "sent w1 = sent w" and "posted w1 = posted w"
    and "file_writes w1 = file_writes w" and "requests w1 = requests w"
    and "distinct (dict_keys a)" and "json_values a"
proof -
  obtain w1 where l: "load_known_listings w = (Inr a, w1)"
    using assms by (cases "load_known_listings w") auto
  from load_fields [OF l] load_distinct [OF l] load_values [OF l] l that show ?thesis by blast
qed

lemma main_comparison:
  assumes "fst (load_known_listings w0) = Inr a" "a \<noteq> []" "fetched cfg net = Inr b"
  shows "fst (main cfg net w0) = Returned"
    and "state_file (snd (main cfg net w0)) =
           Document (JObj (string_keyed (dict_update a (as_known (new_listings a b)))))"
    and "file_writes (snd (main cfg net w0)) =
           file_writes w0 @ [Open_w, Json_dump (JObj (string_keyed (dict_update a (as_known (new_listings a b)))))]"
    and "bot_token cfg \<noteq> [] \<Longrightarrow> chat_id cfg \<noteq> [] \<Longrightarrow>
         posted (snd (main cfg net w0)) =
           posted w0 @ List.map_filter (notification_for (new_listings a b)) (reported a b)"
    and "new_listings a b = [] \<Longrightarrow>
         posted (snd (main cfg net w0)) = posted w0 \<and>
         requests (snd (main cfg net w0)) = requests w0 @ [Http_get (url cfg) user_agent]"
proof -
  obtain w1 where l: "load_known_listings w0 = (Inr a, w1)"
    and w1: "state_file w1 = state_file w0" "posted w1 = posted w0"
      "file_writes w1 = file_writes w0" "requests w1 = requests w0"
    using load_pair [OF assms(1)] by metis
  let ?w2 = "print_line [Lit ''Loaded '', Lit (py_len a), Lit '' known listing IDs from previous run.''] w1"
  note c = check_listings_general [OF assms(3), of a ?w2]
  obtain w3 where k: "check_listings cfg net a ?w2 = (Inr (), w3)"
    using c(1) by (cases "check_listings cfg net a ?w2") auto
  have m: "main cfg net w0 = (Returned, w3)"
    by (simp add: main_def l assms(2) k)
  show "fst (main cfg net w0) = Returned" by (simp add: m)
  show "state_file (snd (main cfg net w0)) =
           Document (JObj (string_keyed (dict_update a (as_known (new_listings a b)))))"
    using c(2) by (simp add: m k)
  show "file_writes (snd (main cfg net w0)) =
           file_writes w0 @ [Open_w, Json_dump (JObj (string_keyed (dict_update a (as_known (new_listings a b)))))]"
    using c(3) by (simp add: m k w1)
  show "posted (snd (main cfg net w0)) =
           posted w0 @ List.map_filter (notification_for (new_listings a b)) (reported a b)"
    if "bot_token cfg \<noteq> []" "chat_id cfg \<noteq> []"
    using check_listings_configured(1) [OF assms(3) that, of a ?w2]
    by (simp add: m k w1 reported_def)
  show "posted (snd (main cfg net w0)) = posted w0 \<and>
         requests (snd (main cfg net w0)) = requests w0 @ [Http_get (url cfg) user_agent]"
    if "new_listings a b = []"
    using check_listings_nothing_new(1,2) [OF assms(3) that, of ?w2]
    by (simp add: m k w1)
qed

lemma main_baseline:
  assumes "fst (load_known_listings w0) = Inr []" "fetched cfg net = Inr b"
  shows "fst (main cfg net w0) = Returned"
    and "state_file (snd (main cfg net w0)) = Document (JObj (string_keyed (as_known b)))"
    and "file_writes (snd (main cfg net w0)) =
           file_writes w0 @ [Open_w, Json_dump (JObj (string_keyed (as_known b)))]"
    and "posted (snd (main cfg net w0)) = posted w0"
    and "requests (snd (main cfg net w0)) = requests w0 @ [Http_get (url cfg) user_agent]"
proof -
  obtain w1 where l: "load_known_listings w0 = (Inr [], w1)"
    and w1: "state_file w1 = state_file w0" "posted w1 = posted w0"
      "file_writes w1 = file_writes w0" "requests w1 = requests w0"
    using load_pair [OF assms(1)] by metis
  let ?w2 = "print_line [Lit ''First run: Saving all current listings as baseline...''] w1"
  obtain w3 where g: "get_all_listings cfg net ?w2 = (Inr b, w3)"
    and w3: "posted w3 = posted ?w2" "file_writes w3 = file_writes ?w2"
      "requests w3 = requests ?w2 @ [Http_get (url cfg) user_agent]"
    using get_all_listings_run [of cfg net ?w2] assms(2) by metis
  show "fst (main cfg net w0) = Returned"
    "state_file (snd (main cfg net w0)) = Document (JObj (string_keyed (as_known b)))"
    "file_writes (snd (main cfg net w0)) =
           file_writes w0 @ [Open_w, Json_dump (JObj (string_keyed (as_known b)))]"
    "posted (snd (main cfg net w0)) = posted w0"
    "requests (snd (main cfg net w0)) = requests w0 @ [Http_get (url cfg) user_agent]"
    by (simp_all add: main_def l g w1 w3)
qed

lemma main_fetch_failed:
  assumes "fst (load_known_listings w0) = Inr a" "fetched cfg net = Inl e"
  shows "fst (main cfg net w0) = Raised e \<and>
         state_file (snd (main cfg net w0)) = state_file w0 \<and>
         file_writes (snd (main cfg net w0)) = file_writes w0 \<and>
         posted (snd (main cfg net w0)) = posted w0"
proof -
  obtain w1 where l: "load_known_listings w0 = (Inr a, w1)"
    and w1: "state_file w1 = state_file w0" "posted w1 = posted w0"
      "file_writes w1 = file_writes w0"
    using load_pair [OF assms(1)] by metis
  show ?thesis
  proof (cases "a = []")
    case True
    let ?w2 = "print_line [Lit ''First run: Saving all current listings as baseline...''] w1"
    obtain w3 where g: "get_all_listings cfg net ?w2 = (Inl e, w3)"
      and w3: "state_file w3 = state_file ?w2" "posted w3 = posted ?w2" "file_writes w3 = file_writes ?w2"
      using get_all_listings_run [of cfg net ?w2] assms(2) by metis
    show ?thesis by (simp add: main_def l True g w1 w3)
  next
    case False
    let ?w2 = "print_line [Lit ''Loaded '', Lit (py_len a), Lit '' known listing IDs from previous run.''] w1"
    note c = check_listings_failed [OF assms(2), of a ?w2]
    obtain w3 where k: "check_listings cfg net a ?w2 = (Inl e, w3)"
      using c(1) by (cases "check_listings cfg net a ?w2") auto
    show ?thesis using c(2,3,4) by (simp add: main_def l False k w1)
  qed
qed


lemma notified_append: "posted w' = posted w @ xs \<Longrightarrow> notified w w' = xs"
  by (simp add: notified_def)

lemma reported_facts:
  assumes "distinct (dict_keys b)"
  shows "set (reported a b) = ids b - ids a" and "distinct (reported a b)"
    and "sorted_wrt (\<lambda>x y. x > y) (reported a b)"
    and "set (reported a b) \<subseteq> ids (new_listings a b)"
    and "map (notification_for (new_listings a b)) (reported a b) = map (notification_for b) (reported a b)"
proof -
  note n = new_listings_ids [OF assms, where a = a]
  show "set (reported a b) = ids b - ids a"
    using n(1) by (simp add: reported_def ids_def)
  show "distinct (reported a b)"
    using n(2) by (simp add: reported_def)
  show "sorted_wrt (\<lambda>x y. x > y) (reported a b)"
    using n(2) by (simp add: reported_def sorted_reverse_descending)
  show sub: "set (reported a b) \<subseteq> ids (new_listings a b)"
    by (simp add: reported_def ids_def)
  show "map (notification_for (new_listings a b)) (reported a b) = map (notification_for b) (reported a b)"
    using sub n(3) by (auto simp: notification_for_def)
qed

lemma comparison_notifications:
  assumes "fst (load_known_listings w0) = Inr a" "a \<noteq> []" "fetched cfg net = Inr b"
    and "bot_token cfg \<noteq> []" "chat_id cfg \<noteq> []"
  shows "map Some (notified w0 (snd (main cfg net w0))) = map (notification_for b) (reported a b)"
proof -
  have d: "distinct (dict_keys b)" using assms(3) by (rule fetched_distinct)
  have "notified w0 (snd (main cfg net w0)) =
          List.map_filter (notification_for (new_listings a b)) (reported a b)"
    using main_comparison(4) [OF assms] by (rule notified_append)
  then show ?thesis
    using map_filter_present [OF reported_facts(4) [OF d, where a = a]] reported_facts(5) [OF d, where a = a]
    by simp
qed

text \<open>
  Claim C1. In a comparison run (a non-empty known set \<open>a\<close> was loaded, the fetch
  returned \<open>b\<close>), the notifications sent during the run are, in order, those of the
  identifiers \<open>reported a b\<close>; these are exactly the identifiers of \<open>b\<close> that are not
  in \<open>a\<close>, each once, and none of them is in \<open>a\<close>.
\<close>

theorem comparison_reports_exactly_new_ids:
  assumes "fst (load_known_listings w0) = Inr a" "a \<noteq> []" "fetched cfg net = Inr b"
    and "bot_token cfg \<noteq> []" "chat_id cfg \<noteq> []"
  shows "map Some (notified w0 (snd (main cfg net w0))) = map (notification_for b) (reported a b) \<and>
         set (reported a b) = ids b - ids a \<and>
         distinct (reported a b) \<and>
         set (reported a b) \<inter> ids a = {}"
proof -
  have d: "distinct (dict_keys b)" using assms(3) by (rule fetched_distinct)
  show ?thesis
    using comparison_notifications [OF assms] reported_facts(1,2) [OF d, where a = a] by auto
qed


text \<open>
  Claim C3. The identifiers a comparison run notifies, which are the identifiers of the
  fetched set that are not known, are in strictly descending order, and the
  notifications are sent in that order.
\<close>

theorem notifications_in_descending_order:
  assumes "fst (load_known_listings w0) = Inr a" "a \<noteq> []" "fetched cfg net = Inr b"
    and "bot_token cfg \<noteq> []" "chat_id cfg \<noteq> []"
  shows "sorted_wrt (\<lambda>x y. x > y) (reported a b) \<and>
         set (reported a b) = ids b - ids a \<and>
         map Some (notified w0 (snd (main cfg net w0))) = map (notification_for b) (reported a b)"
proof -
  have d: "distinct (dict_keys b)" using assms(3) by (rule fetched_distinct)
  show ?thesis
    using comparison_notifications [OF assms] reported_facts(1,3) [OF d, where a = a] by simp
qed

lemma load_absent: "state_file w = Absent \<Longrightarrow> load_known_listings w = (Inr [], w)"
  by (simp add: load_known_listings_def)

lemma distinct_as_known [simp]: "dict_keys (as_known d) = dict_keys d"
  by (induction d) (auto simp: as_known_def)

lemma ids_dict_update: "ids (dict_update d e) = ids d \<union> ids e"
  by (simp add: ids_def set_dict_keys_update)

lemma ids_as_known [simp]: "ids (as_known d) = ids d"
  by (simp add: ids_def)

text \<open>
  Claim C2. When the state file is absent or the loaded known set is empty, a run whose
  fetch returns \<open>b\<close> returns normally, sends no notification (its only request is the
  GET of the page) and leaves a state file that holds exactly \<open>b\<close>: loading it again
  gives the entries of \<open>b\<close>, each identifier with its title and its URL, in the order
  of \<open>b\<close>.
\<close>

theorem baseline_run_saves_without_notifying:
  assumes "state_file w0 = Absent \<or> fst (load_known_listings w0) = Inr []"
    and "fetched cfg net = Inr b"
  shows "fst (main cfg net w0) = Returned \<and>
         notified w0 (snd (main cfg net w0)) = [] \<and>
         requests (snd (main cfg net w0)) = requests w0 @ [Http_get (url cfg) user_agent] \<and>
         state_file (snd (main cfg net w0)) = Document (JObj (string_keyed (as_known b))) \<and>
         fst (load_known_listings (snd (main cfg net w0))) = Inr (as_known b) \<and>
         as_known b = map (\<lambda>(k, title, link). (k, [JStr title, JStr link])) b \<and>
         ids (as_known b) = ids b"
proof -
  have l: "fst (load_known_listings w0) = Inr []"
    using assms(1) load_absent [of w0] by auto
  have e: "as_known b = map (\<lambda>(k, title, link). (k, [JStr title, JStr link])) b"
    by (simp add: as_known_def as_tuple_def case_prod_unfold)
  note m = main_baseline [OF l assms(2)]
  have d: "distinct (dict_keys (as_known b))"
    using fetched_distinct [OF assms(2)] by simp
  have "load_known_listings (snd (main cfg net w0)) = (Inr (as_known b), snd (main cfg net w0))"
    using m(2) d json_values_as_known by (rule load_of_saved_state)
  then have "fst (main cfg net w0) = Returned \<and>
         notified w0 (snd (main cfg net w0)) = [] \<and>
         requests (snd (main cfg net w0)) = requests w0 @ [Http_get (url cfg) user_agent] \<and>
         state_file (snd (main cfg net w0)) = Document (JObj (string_keyed (as_known b))) \<and>
         fst (load_known_listings (snd (main cfg net w0))) = Inr (as_known b)"
    using m by (simp add: notified_def)
  with e ids_as_known [of b] show ?thesis by blast
qed

lemma main_comparison_reload:
  assumes "fst (load_known_listings w0) = Inr a" "a \<noteq> []" "fetched cfg net = Inr b"
  shows "load_known_listings (snd (main cfg net w0)) =
           (Inr (dict_update a (as_known (new_listings a b))), snd (main cfg net w0))"
    and "ids (dict_update a (as_known (new_listings a b))) = ids a \<union> ids b"
proof -
  have da: "distinct (dict_keys a)" and va: "json_values a"
    using load_pair [OF assms(1)] by metis+
  have db: "distinct (dict_keys b)" using assms(3) by (rule fetched_distinct)
  have "distinct (dict_keys (dict_update a (as_known (new_listings a b))))"
    using da by (rule distinct_dict_update)
  moreover have "json_values (dict_update a (as_known (new_listings a b)))"
    using va json_values_as_known by (rule json_values_dict_update)
  ultimately show "load_known_listings (snd (main cfg net w0)) =
           (Inr (dict_update a (as_known (new_listings a b))), snd (main cfg net w0))"
    using main_comparison(2) [OF assms] by (intro load_of_saved_state)
  show "ids (dict_update a (as_known (new_listings a b))) = ids a \<union> ids b"
    using new_listings_ids(1) [OF db, where a = a] by (auto simp: ids_dict_update)
qed

lemma main_returned:
  assumes "fst (main cfg net w0) = Returned"
  obtains a b where "fst (load_known_listings w0) = Inr a" "fetched cfg net = Inr b"
proof -
  obtain r w1 where l: "load_known_listings w0 = (r, w1)" by (cases "load_known_listings w0")
  obtain a where a: "r = Inr a"
    using assms l by (cases r) (auto simp: main_def)
  have la: "fst (load_known_listings w0) = Inr a" by (simp add: l a)
  obtain b where "fetched cfg net = Inr b"
    using main_fetch_failed [OF la, of cfg net] assms by (cases "fetched cfg net") auto
  with la that show ?thesis by blast
qed

text \<open>
  Claim C4. After every run that returns normally, baseline or comparison, the known set
  loaded from the state file contains every identifier of the known set loaded before
  the run.
\<close>

theorem persisted_state_grows:
  assumes "fst (main cfg net w0) = Returned"
  shows "\<exists>a a'. fst (load_known_listings w0) = Inr a \<and>
                 fst (load_known_listings (snd (main cfg net w0))) = Inr a' \<and>
                 ids a \<subseteq> ids a'"
proof -
  obtain a b where l: "fst (load_known_listings w0) = Inr a" and f: "fetched cfg net = Inr b"
    using main_returned [OF assms] by metis
  show ?thesis
  proof (cases "a = []")
    case True
    have "fst (load_known_listings (snd (main cfg net w0))) = Inr (as_known b)"
    proof -
      have d: "distinct (dict_keys (as_known b))" using fetched_distinct [OF f] by simp
      have "load_known_listings (snd (main cfg net w0)) = (Inr (as_known b), snd (main cfg net w0))"
        using main_baseline(2) [OF l [unfolded True] f] d json_values_as_known
        by (rule load_of_saved_state)
      then show ?thesis by simp
    qed
    with l True show ?thesis by (auto simp: ids_def)
  next
    case False
    from main_comparison_reload [OF l False f] l show ?thesis by auto
  qed
qed

lemma new_listings_none:
  assumes "distinct (dict_keys b)" "ids b \<subseteq> ids a"
  shows "new_listings a b = []"
proof -
  have "ids (new_listings a b) = {}"
    using new_listings_ids(1) [OF assms(1), where a = a] assms(2) by auto
  then show ?thesis by (simp add: ids_def dict_keys_def)
qed

text \<open>
  Claim C5. After a comparison run that fetched \<open>b\<close>, a second run that fetches \<open>b\<close>
  again returns normally, sends no notification (its only request is the GET of the
  page) and leaves the state file with the content the first run gave it.
\<close>

theorem second_comparison_run_is_silent:
  assumes "fst (load_known_listings w0) = Inr a" "a \<noteq> []"
    and "fetched cfg net = Inr b" "fetched cfg net' = Inr b"
  shows "fst (main cfg net' (snd (main cfg net w0))) = Returned \<and>
         notified (snd (main cfg net w0)) (snd (main cfg net' (snd (main cfg net w0)))) = [] \<and>
         requests (snd (main cfg net' (snd (main cfg net w0)))) =
           requests (snd (main cfg net w0)) @ [Http_get (url cfg) user_agent] \<and>
         state_file (snd (main cfg net' (snd (main cfg net w0)))) = state_file (snd (main cfg net w0))"
proof -
  let ?w1 = "snd (main cfg net w0)"
  let ?m = "dict_update a (as_known (new_listings a b))"
  note r = main_comparison_reload [OF assms(1,2,3)]
  have l: "fst (load_known_listings ?w1) = Inr ?m" by (simp add: r(1))
  have ne: "?m \<noteq> []"
  proof
    assume "?m = []"
    then have "ids ?m = {}" by (simp add: ids_def)
    with r(2) have "ids a = {}" by simp
    with assms(2) show False by (simp add: ids_def dict_keys_def)
  qed
  have none: "new_listings ?m b = []"
    using fetched_distinct [OF assms(4)] r(2) by (intro new_listings_none) auto
  note m = main_comparison [OF l ne assms(4)]
  have "state_file (snd (main cfg net' ?w1)) = state_file ?w1"
    using m(2) main_comparison(2) [OF assms(1,2,3)] by (simp add: none)
  then show ?thesis using m(1) m(5) [OF none] by (simp add: notified_def)
qed








subsection \<open>The claims on the example inputs\<close>

lemma example_loads: "fst (load_known_listings example_world) = Inr example_known"
  by code_simp

lemma example_known_nonempty: "example_known \<noteq> []"
  by code_simp

lemma example_fetches: "fetched example_cfg example_net = Inr example_listings"
  by code_simp

lemma flaky_fetches: "fetched example_cfg flaky_net = Inr example_listings"
  by code_simp

lemma example_configured: "bot_token example_cfg \<noteq> []" "chat_id example_cfg \<noteq> []"
  by code_simp+


lemma fresh_absent: "state_file fresh_world = Absent"
  by code_simp

lemma example_reported: "reported example_known example_listings = [103, 102]"
  by code_simp

lemma example_notifications:
  "map (notification_for example_listings) [103, 102] =
     map Some [message_text ''https://re.kufar.by/dom/103'',
               message_text ''https://re.kufar.by/dom/dacha/102'']"
  by (simp add: notification_for_def example_listings_def)

lemma example_saved:
  "string_keyed (as_known example_listings) =
     [(''100'', JArr [JStr ''House A'', JStr ''https://re.kufar.by/dom/100'']),
      (''101'', JArr [JStr ''House B'', JStr ''https://re.kufar.by/dom/101'']),
      (''103'', JArr [JStr ''House C'', JStr ''https://re.kufar.by/dom/103'']),
      (''102'', JArr [JStr ''Dacha D'', JStr ''https://re.kufar.by/dom/dacha/102''])]"
  by code_simp

lemma example_as_known:
  "as_known example_listings =
     [(100, [JStr ''House A'', JStr ''https://re.kufar.by/dom/100'']),
      (101, [JStr ''House B'', JStr ''https://re.kufar.by/dom/101'']),
      (103, [JStr ''House C'', JStr ''https://re.kufar.by/dom/103'']),
      (102, [JStr ''Dacha D'', JStr ''https://re.kufar.by/dom/dacha/102''])]"
  by code_simp

theorem comparison_reports_exactly_new_ids_witness:
  "reported example_known example_listings = [103, 102] \<and>
   notified example_world (snd (main example_cfg example_net example_world)) =
     [message_text ''https://re.kufar.by/dom/103'',
      message_text ''https://re.kufar.by/dom/dacha/102''] \<and>
   map Some (notified example_world (snd (main example_cfg example_net example_world))) =
     map (notification_for example_listings) (reported example_known example_listings) \<and>
   set (reported example_known example_listings) = ids example_listings - ids example_known \<and>
   distinct (reported example_known example_listings) \<and>
   set (reported example_known example_listings) \<inter> ids example_known = {}"
proof -
  note t = comparison_reports_exactly_new_ids
    [OF example_loads example_known_nonempty example_fetches example_configured]
  from t have "map Some (notified example_world (snd (main example_cfg example_net example_world))) =
      map Some [message_text ''https://re.kufar.by/dom/103'',
                message_text ''https://re.kufar.by/dom/dacha/102'']"
    by (simp only: example_reported example_notifications)
  then have "notified example_world (snd (main example_cfg example_net example_world)) =
      [message_text ''https://re.kufar.by/dom/103'',
       message_text ''https://re.kufar.by/dom/dacha/102'']"
    by (simp only: inj_map_eq_map [OF inj_Some])
  with t example_reported show ?thesis by blast
qed

theorem notifications_in_descending_order_witness:
  "reported example_known example_listings = [103, 102] \<and>
   notified example_world (snd (main example_cfg flaky_net example_world)) =
     [message_text ''https://re.kufar.by/dom/103'',
      message_text ''https://re.kufar.by/dom/dacha/102''] \<and>
   sorted_wrt (\<lambda>x y. x > y) (reported example_known example_listings) \<and>
   set (reported example_known example_listings) = ids example_listings - ids example_known \<and>
   map Some (notified example_world (snd (main example_cfg flaky_net example_world))) =
     map (notification_for example_listings) (reported example_known example_listings)"
proof -
  note t = notifications_in_descending_order
    [OF example_loads example_known_nonempty flaky_fetches example_configured]
  from t have "map Some (notified example_world (snd (main example_cfg flaky_net example_world))) =
      map Some [message_text ''https://re.kufar.by/dom/103'',
                message_text ''https://re.kufar.by/dom/dacha/102'']"
    by (simp only: example_reported example_notifications)
  then have "notified example_world (snd (main example_cfg flaky_net example_world)) =
      [message_text ''https://re.kufar.by/dom/103'',
       message_text ''https://re.kufar.by/dom/dacha/102'']"
    by (simp only: inj_map_eq_map [OF inj_Some])
  with t example_reported show ?thesis by blast
qed

theorem baseline_run_saves_without_notifying_witness:
  "fst (main example_cfg example_net fresh_world) = Returned \<and>
   notified fresh_world (snd (main example_cfg example_net fresh_world)) = [] \<and>
   requests (snd (main example_cfg example_net fresh_world)) =
     requests fresh_world @ [Http_get (url example_cfg) user_agent] \<and>
   state_file (snd (main example_cfg example_net fresh_world)) =
     Document (JObj
       [(''100'', JArr [JStr ''House A'', JStr ''https://re.kufar.by/dom/100'']),
        (''101'', JArr [JStr ''House B'', JStr ''https://re.kufar.by/dom/101'']),
        (''103'', JArr [JStr ''House C'', JStr ''https://re.kufar.by/dom/103'']),
        (''102'', JArr [JStr ''Dacha D'', JStr ''https://re.kufar.by/dom/dacha/102''])]) \<and>
   fst (load_known_listings (snd (main example_cfg example_net fresh_world))) =
     Inr [(100, [JStr ''House A'', JStr ''https://re.kufar.by/dom/100'']),
          (101, [JStr ''House B'', JStr ''https://re.kufar.by/dom/101'']),
          (103, [JStr ''House C'', JStr ''https://re.kufar.by/dom/103'']),
          (102, [JStr ''Dacha D'', JStr ''https://re.kufar.by/dom/dacha/102''])] \<and>
   ids (as_known example_listings) = ids example_listings"
proof -
  note t = baseline_run_saves_without_notifying [OF disjI1 [OF fresh_absent] example_fetches]
  from t have s: "state_file (snd (main example_cfg example_net fresh_world)) =
     Document (JObj
       [(''100'', JArr [JStr ''House A'', JStr ''https://re.kufar.by/dom/100'']),
        (''101'', JArr [JStr ''House B'', JStr ''https://re.kufar.by/dom/101'']),
        (''103'', JArr [JStr ''House C'', JStr ''https://re.kufar.by/dom/103'']),
        (''102'', JArr [JStr ''Dacha D'', JStr ''https://re.kufar.by/dom/dacha/102''])])"
    by (simp only: example_saved)
  from t have l: "fst (load_known_listings (snd (main example_cfg example_net fresh_world))) =
     Inr [(100, [JStr ''House A'', JStr ''https://re.kufar.by/dom/100'']),
          (101, [JStr ''House B'', JStr ''https://re.kufar.by/dom/101'']),
          (103, [JStr ''House C'', JStr ''https://re.kufar.by/dom/103'']),
          (102, [JStr ''Dacha D'', JStr ''https://re.kufar.by/dom/dacha/102''])]"
    by (simp only: example_as_known)
  from t s l show ?thesis by blast
qed

lemma example_returns: "fst (main example_cfg example_net example_world) = Returned"
  by (rule main_comparison(1) [OF example_loads example_known_nonempty example_fetches])

theorem persisted_state_grows_witness:
  "\<exists>a a'. fst (load_known_listings example_world) = Inr a \<and>
          fst (load_known_listings (snd (main example_cfg example_net example_world))) = Inr a' \<and>
          ids a \<subseteq> ids a'"
  by (rule persisted_state_grows [OF example_returns])

theorem second_comparison_run_is_silent_witness:
  "fst (main example_cfg example_net (snd (main example_cfg flaky_net example_world))) = Returned \<and>
   notified (snd (main example_cfg flaky_net example_world))
     (snd (main example_cfg example_net (snd (main example_cfg flaky_net example_world)))) = [] \<and>
   requests (snd (main example_cfg example_net (snd (main example_cfg flaky_net example_world)))) =
     requests (snd (main example_cfg flaky_net example_world)) @ [Http_get (url example_cfg) user_agent] \<and>
   state_file (snd (main example_cfg example_net (snd (main example_cfg flaky_net example_world)))) =
     state_file (snd (main example_cfg flaky_net example_world))"
  by (rule second_comparison_run_is_silent
      [OF example_loads example_known_nonempty flaky_fetches example_fetches])


subsection \<open>Corrupt state\<close>

lemma load_recovers:
  assumes "state_file w \<noteq> Absent" "read_known (state_file w) = Inl e"
    and "caught e [JSONDecodeError, ValueError, KeyError]"
  shows "load_known_listings w =
           (Inr [], print_line [Lit ''Error loading known listings: '', Str_of e,
                                Lit ''. Starting fresh.''] w)"
  using assms by (simp add: load_known_listings_def)

lemma load_raises:
  assumes "state_file w \<noteq> Absent" "read_known (state_file w) = Inl e"
    and "\<not> caught e [JSONDecodeError, ValueError, KeyError]"
  shows "load_known_listings w = (Inl e, w)"
  using assms by (simp add: load_known_listings_def)

text \<open>
  Claim C7. On the state file \<^verbatim>\<open>{"1": 5}\<close> the load does not return an empty set:
  \<^verbatim>\<open>tuple(5)\<close> raises a \<^verbatim>\<open>TypeError\<close>, which the \<^verbatim>\<open>except\<close> clause does not
  catch, so \<^verbatim>\<open>load_known_listings\<close> raises it, logs nothing, and \<^verbatim>\<open>main\<close> ends
  with that exception before it fetches anything.
\<close>

theorem load_raises_on_invalid_entry:
  "load_known_listings broken_world = (Inl (Not_iterable (JInt 5)), broken_world) \<and>
   class_of (Not_iterable (JInt 5)) = TypeError \<and>
   \<not> caught (Not_iterable (JInt 5)) [JSONDecodeError, ValueError, KeyError] \<and>
   main example_cfg example_net broken_world = (Raised (Not_iterable (JInt 5)), broken_world)"
proof -
  have r: "read_known (state_file broken_world) = Inl (Not_iterable (JInt 5))"
    by code_simp
  have n: "\<not> caught (Not_iterable (JInt 5)) [JSONDecodeError, ValueError, KeyError]"
    by code_simp
  have p: "state_file broken_world \<noteq> Absent"
    by (simp add: broken_world_def)
  have l: "load_known_listings broken_world = (Inl (Not_iterable (JInt 5)), broken_world)"
    using p r n by (rule load_raises)
  show ?thesis using l n by (simp add: main_def)
qed

subsection \<open>Saving is not atomic\<close>

lemma read_known_empty_file:
  "read_known empty_file =
     Inl (Raised_by_library JSONDecodeError ''Expecting value: line 1 column 1 (char 0)'')"
  by (simp add: read_known_def empty_file_def)

lemma interrupted_save_fields [simp]:
  "state_file (interrupted_save d w) = empty_file"
  by (simp add: interrupted_save_def open_w_def)

text \<open>
  Claim C8, as stated, fails: a crash after the state file was opened for writing leaves
  a file that \<^verbatim>\<open>json.load\<close> cannot parse, where it could parse the file before.
\<close>

theorem interrupted_save_leaves_unparseable_file:
  "parseable (state_file example_world) \<and>
   \<not> parseable (state_file (interrupted_save example_known example_world)) \<and>
   read_known (state_file (interrupted_save example_known example_world)) =
     Inl (Raised_by_library JSONDecodeError ''Expecting value: line 1 column 1 (char 0)'')"
  by (simp add: read_known_empty_file)
     (simp add: parseable_def example_world_def empty_file_def)

text \<open>
  Claim C8, amended. The save overwrites the state file in place: it opens the file for
  writing, which empties it, and then writes the whole set. A save that completes leaves
  the document of the set. A crash between the two steps leaves an empty file, which
  \<^verbatim>\<open>json.load\<close> cannot parse; the load of the next run logs the error and returns an
  empty set, so that run is a baseline run.
\<close>

theorem save_overwrites_in_place:
  "state_file (save_known_listings d w) = Document (JObj (string_keyed d)) \<and>
   parseable (state_file (save_known_listings d w)) \<and>
   file_writes (save_known_listings d w) = file_writes w @ [Open_w, Json_dump (JObj (string_keyed d))] \<and>
   state_file (interrupted_save d w) = empty_file \<and>
   \<not> parseable (state_file (interrupted_save d w)) \<and>
   load_known_listings (interrupted_save d w) =
     (Inr [], print_line [Lit ''Error loading known listings: '',
                          Str_of (Raised_by_library JSONDecodeError ''Expecting value: line 1 column 1 (char 0)''),
                          Lit ''. Starting fresh.''] (interrupted_save d w))"
proof -
  have "load_known_listings (interrupted_save d w) =
     (Inr [], print_line [Lit ''Error loading known listings: '',
                          Str_of (Raised_by_library JSONDecodeError ''Expecting value: line 1 column 1 (char 0)''),
                          Lit ''. Starting fresh.''] (interrupted_save d w))"
    by (rule load_recovers) (simp_all add: read_known_empty_file, simp_all add: empty_file_def caught_def)
  then show ?thesis by (simp add: parseable_def) (simp add: empty_file_def)
qed

subsection \<open>Delivery failures\<close>

lemma send_failure:
  assumes "bot_token cfg \<noteq> []" "chat_id cfg \<noteq> []"
    and "telegram net (sent w) = No_response e \<or> telegram net (sent w) = Response (Some e) u"
  shows "send_telegram_message cfg net text w =
           (Inr False,
            emit (Print_exc e)
              (print_line [Lit ''Error sending Telegram message: '', Str_of e]
                 (emit (Http_post (''https://api.telegram.org/bot'' @ bot_token cfg @ ''/sendMessage'')
                          [(''chat_id'', chat_id cfg), (''text'', text), (''parse_mode'', ''HTML'')])
                    (w\<lparr>sent := sent w + 1\<rparr>))))"
  using assms by (auto simp: send_telegram_message_def Let_def)

lemma main_comparison_sent:
  assumes "fst (load_known_listings w0) = Inr a" "a \<noteq> []" "fetched cfg net = Inr b"
    and "bot_token cfg \<noteq> []" "chat_id cfg \<noteq> []"
  shows "sent (snd (main cfg net w0)) = sent w0 + length (reported a b)"
proof -
  obtain w1 where l: "load_known_listings w0 = (Inr a, w1)" and w1: "sent w1 = sent w0"
    using load_pair [OF assms(1)] by metis
  let ?w2 = "print_line [Lit ''Loaded '', Lit (py_len a), Lit '' known listing IDs from previous run.''] w1"
  obtain w3 where k: "check_listings cfg net a ?w2 = (Inr (), w3)"
    using check_listings_general(1) [OF assms(3), of a ?w2]
    by (cases "check_listings cfg net a ?w2") auto
  have "sent w3 = sent ?w2 + length (new_listings a b)"
    using check_listings_configured(2) [OF assms(3,4,5), of a ?w2] by (simp add: k)
  then show ?thesis by (simp add: main_def l assms(2) k w1 reported_def)
qed

text \<open>
  Claim C9. With the bot configured, a send whose POST raises, or whose response has an
  error status, returns \<open>False\<close> after logging the error and its traceback; no send
  raises. Whatever the answers to the POSTs of a comparison run (the hypothesis names one
  that fails), the run returns normally, attempts one notification for every new
  identifier, in order, and the state file it leaves holds the known set merged with
  all new identifiers.
\<close>

theorem delivery_failure_is_isolated:
  assumes "bot_token cfg \<noteq> []" "chat_id cfg \<noteq> []"
    and "telegram net (sent w) = No_response e \<or> telegram net (sent w) = Response (Some e) u"
    and "fst (load_known_listings w0) = Inr a" "a \<noteq> []" "fetched cfg net = Inr b"
  shows "send_telegram_message cfg net text w =
           (Inr False,
            emit (Print_exc e)
              (print_line [Lit ''Error sending Telegram message: '', Str_of e]
                 (emit (Http_post (''https://api.telegram.org/bot'' @ bot_token cfg @ ''/sendMessage'')
                          [(''chat_id'', chat_id cfg), (''text'', text), (''parse_mode'', ''HTML'')])
                    (w\<lparr>sent := sent w + 1\<rparr>)))) \<and>
         (\<exists>delivered. fst (send_telegram_message cfg net text' w') = Inr delivered) \<and>
         fst (main cfg net w0) = Returned \<and>
         map Some (notified w0 (snd (main cfg net w0))) = map (notification_for b) (reported a b) \<and>
         sent (snd (main cfg net w0)) = sent w0 + length (reported a b) \<and>
         set (reported a b) = ids b - ids a \<and>
         fst (load_known_listings (snd (main cfg net w0))) =
           Inr (dict_update a (as_known (new_listings a b))) \<and>
         ids (dict_update a (as_known (new_listings a b))) = ids a \<union> ids b"
proof -
  have d: "distinct (dict_keys b)" using assms(6) by (rule fetched_distinct)
  note r = main_comparison_reload [OF assms(4,5,6)]
  show ?thesis
    using send_failure [OF assms(1,2,3)] send_general(1) [of cfg net text' w']
      main_comparison(1) [OF assms(4,5,6)]
      comparison_notifications [OF assms(4,5,6) assms(1,2)]
      main_comparison_sent [OF assms(4,5,6) assms(1,2)]
      reported_facts(1) [OF d, where a = a] r
    by simp
qed

lemma flaky_first_fails:
  "telegram flaky_net (sent example_world) = No_response (Raised_by_library Timeout ''Read timed out.'') \<or>
   telegram flaky_net (sent example_world) = Response (Some (Raised_by_library Timeout ''Read timed out.'')) ()"
  by code_simp

lemma example_merged:
  "dict_update example_known (as_known (new_listings example_known example_listings)) =
     [(100, [JStr ''House A'', JStr ''https://re.kufar.by/dom/100'']),
      (101, [JStr ''House B'', JStr ''https://re.kufar.by/dom/101'']),
      (103, [JStr ''House C'', JStr ''https://re.kufar.by/dom/103'']),
      (102, [JStr ''Dacha D'', JStr ''https://re.kufar.by/dom/dacha/102''])]"
  by code_simp

theorem delivery_failure_is_isolated_witness:
  "send_telegram_message example_cfg flaky_net ''hello'' example_world =
           (Inr False,
            emit (Print_exc (Raised_by_library Timeout ''Read timed out.''))
              (print_line [Lit ''Error sending Telegram message: '',
                           Str_of (Raised_by_library Timeout ''Read timed out.'')]
                 (emit (Http_post (''https://api.telegram.org/bot'' @ bot_token example_cfg @ ''/sendMessage'')
                          [(''chat_id'', chat_id example_cfg), (''text'', ''hello''), (''parse_mode'', ''HTML'')])
                    (example_world\<lparr>sent := sent example_world + 1\<rparr>)))) \<and>
   (\<exists>delivered. fst (send_telegram_message example_cfg flaky_net ''hello'' fresh_world) = Inr delivered) \<and>
   fst (main example_cfg flaky_net example_world) = Returned \<and>
   reported example_known example_listings = [103, 102] \<and>
   notified example_world (snd (main example_cfg flaky_net example_world)) =
     [message_text ''https://re.kufar.by/dom/103'',
      message_text ''https://re.kufar.by/dom/dacha/102''] \<and>
   sent (snd (main example_cfg flaky_net example_world)) = sent example_world + 2 \<and>
   fst (load_known_listings (snd (main example_cfg flaky_net example_world))) =
     Inr [(100, [JStr ''House A'', JStr ''https://re.kufar.by/dom/100'']),
          (101, [JStr ''House B'', JStr ''https://re.kufar.by/dom/101'']),
          (103, [JStr ''House C'', JStr ''https://re.kufar.by/dom/103'']),
          (102, [JStr ''Dacha D'', JStr ''https://re.kufar.by/dom/dacha/102''])]"
proof -
  note t = delivery_failure_is_isolated
    [OF example_configured flaky_first_fails example_loads example_known_nonempty flaky_fetches,
     of "''hello''" "''hello''" fresh_world]
  from t have "map Some (notified example_world (snd (main example_cfg flaky_net example_world))) =
      map Some [message_text ''https://re.kufar.by/dom/103'',
                message_text ''https://re.kufar.by/dom/dacha/102'']"
    by (simp only: example_reported example_notifications)
  then have "notified example_world (snd (main example_cfg flaky_net example_world)) =
      [message_text ''https://re.kufar.by/dom/103'',
       message_text ''https://re.kufar.by/dom/dacha/102'']"
    by (simp only: inj_map_eq_map [OF inj_Some])
  with t show ?thesis
    by (simp add: example_merged example_reported)
qed

subsection \<open>Configuration\<close>

lemma get_required_env_missing:
  assumes "environ key = None \<or> environ key = Some []"
  shows "get_required_env key description environ w =
     (Inl 1,
      print_line [Lit ''Please set this as a GitHub Secret or in your .env file.'']
        (print_line
           [Lit ''ERROR: '',
            Lit (''Required environment variable '' @ [CHR 0x27] @ key @ [CHR 0x27] @ '' is not set.'' @
                 (if description \<noteq> [] then '' '' @ description else []))] w))"
  using assms by (auto simp: get_required_env_def Let_def)

lemma get_required_env_present:
  assumes "environ key = Some v" "v \<noteq> []"
  shows "get_required_env key description environ w = (Inr v, w)"
  using assms by (simp add: get_required_env_def Let_def)

lemma get_required_env_cases:
  obtains (missing) "environ key = None \<or> environ key = Some []"
  | (present) v where "environ key = Some v" "v \<noteq> []"
  by (cases "environ key") auto

lemma get_required_env_other:
  "key' \<noteq> key \<Longrightarrow>
   get_required_env key' description (environ(key := x)) w = get_required_env key' description environ w"
  by (simp add: get_required_env_def Let_def)

lemma get_required_env_fields:
  "state_file (snd (get_required_env key description environ w)) = state_file w"
  "requests (snd (get_required_env key description environ w)) = requests w"
  "file_writes (snd (get_required_env key description environ w)) = file_writes w"
  by (cases rule: get_required_env_cases [of environ key];
      simp add: get_required_env_missing get_required_env_present)+

lemma get_required_env_empty_as_unset:
  assumes "environ key = Some []"
  shows "get_required_env key description environ w =
         get_required_env key description (environ(key := None)) w"
  using assms by (simp add: get_required_env_def Let_def)

lemma program_missing:
  assumes "key = ''URL'' \<or> key = ''TELEGRAM_BOT_TOKEN'' \<or> key = ''TELEGRAM_CHAT_ID''"
    and "environ key = None \<or> environ key = Some []"
  shows "fst (program environ net w) = Exited 1 \<and>
         state_file (snd (program environ net w)) = state_file w \<and>
         requests (snd (program environ net w)) = requests w \<and>
         file_writes (snd (program environ net w)) = file_writes w"
proof -
  let ?u = "get_required_env ''URL'' ''The Kufar URL to monitor for new listings'' environ w"
  show ?thesis
  proof (cases rule: get_required_env_cases [of environ "''URL''"])
    case missing
    then show ?thesis
      by (simp add: program_def
          get_required_env_missing [where environ = environ and key = "''URL''"])
  next
    case (present u)
    note pu = get_required_env_present [where environ = environ and key = "''URL''", OF present]
    show ?thesis
    proof (cases rule: get_required_env_cases [of environ "''TELEGRAM_BOT_TOKEN''"])
      case missing
      then show ?thesis
        by (simp add: program_def pu
            get_required_env_missing [where environ = environ and key = "''TELEGRAM_BOT_TOKEN''"])
    next
      case (present t)
      note pt = get_required_env_present
        [where environ = environ and key = "''TELEGRAM_BOT_TOKEN''", OF present]
      have "environ ''TELEGRAM_CHAT_ID'' = None \<or> environ ''TELEGRAM_CHAT_ID'' = Some []"
        using assms \<open>environ ''URL'' = Some u\<close> \<open>u \<noteq> []\<close> present by auto
      then show ?thesis
        by (simp add: program_def pu pt
            get_required_env_missing [where environ = environ and key = "''TELEGRAM_CHAT_ID''"])
    qed
  qed
qed

lemma program_empty_as_unset:
  assumes "key = ''URL'' \<or> key = ''TELEGRAM_BOT_TOKEN'' \<or> key = ''TELEGRAM_CHAT_ID''"
    and "environ key = Some []"
  shows "program environ net w = program (environ(key := None)) net w"
proof -
  have same: "get_required_env k d (environ(key := None)) w' = get_required_env k d environ w'"
    for k d w'
  proof (cases "k = key")
    case True
    then show ?thesis
      using get_required_env_empty_as_unset [where environ = environ and key = key, OF assms(2)]
      by simp
  next
    case False
    then show ?thesis by (rule get_required_env_other)
  qed
  show ?thesis unfolding program_def same by (rule refl)
qed

text \<open>
  When the three settings are present and non-empty the process runs \<^verbatim>\<open>main\<close> with
  them, so the bot is configured in every run of \<^verbatim>\<open>main\<close>.
\<close>

lemma program_runs_main:
  assumes "environ ''URL'' = Some u" "u \<noteq> []"
    and "environ ''TELEGRAM_BOT_TOKEN'' = Some t" "t \<noteq> []"
    and "environ ''TELEGRAM_CHAT_ID'' = Some c" "c \<noteq> []"
  shows "program environ net w = main \<lparr>url = u, bot_token = t, chat_id = c\<rparr> net w"
  using assms by (simp add: program_def get_required_env_def Let_def)

text \<open>
  Claim C10. A required variable (\<^verbatim>\<open>URL\<close>, \<^verbatim>\<open>TELEGRAM_BOT_TOKEN\<close> or
  \<^verbatim>\<open>TELEGRAM_CHAT_ID\<close>) that is set to the empty string is treated as one that is not
  set: \<^verbatim>\<open>get_required_env\<close> prints the error that names the variable and exits with
  status 1, exactly as it does when the variable is removed from the environment; the
  process then ends with exit status 1 without a network request and without touching
  the state file.
\<close>

theorem empty_setting_is_treated_as_unset:
  assumes "key = ''URL'' \<or> key = ''TELEGRAM_BOT_TOKEN'' \<or> key = ''TELEGRAM_CHAT_ID''"
    and "environ key = Some []"
  shows "get_required_env key description environ w =
           get_required_env key description (environ(key := None)) w \<and>
         get_required_env key description environ w =
           (Inl 1,
            print_line [Lit ''Please set this as a GitHub Secret or in your .env file.'']
              (print_line
                 [Lit ''ERROR: '',
                  Lit (''Required environment variable '' @ [CHR 0x27] @ key @ [CHR 0x27] @
                       '' is not set.'' @ (if description \<noteq> [] then '' '' @ description else []))] w)) \<and>
         program environ net w = program (environ(key := None)) net w \<and>
         fst (program environ net w) = Exited 1 \<and>
         exit_status (fst (program environ net w)) = 1 \<and>
         state_file (snd (program environ net w)) = state_file w \<and>
         requests (snd (program environ net w)) = requests w \<and>
         file_writes (snd (program environ net w)) = file_writes w"
proof -
  have m: "environ key = None \<or> environ key = Some []" using assms(2) by simp
  show ?thesis
    using get_required_env_empty_as_unset
        [where environ = environ and key = key and description = description and w = w, OF assms(2)]
      get_required_env_missing
        [where environ = environ and key = key and description = description and w = w, OF m]
      program_empty_as_unset [where environ = environ and key = key and net = net and w = w, OF assms]
      program_missing [where environ = environ and key = key and net = net and w = w, OF assms(1) m]
    by simp
qed

lemma example_environ_token: "example_environ ''TELEGRAM_BOT_TOKEN'' = Some []"
  by (simp add: example_environ_def)

theorem empty_setting_is_treated_as_unset_witness:
  "get_required_env ''TELEGRAM_BOT_TOKEN'' ''Telegram bot token from @BotFather'' example_environ example_world =
           get_required_env ''TELEGRAM_BOT_TOKEN'' ''Telegram bot token from @BotFather'' (example_environ(''TELEGRAM_BOT_TOKEN'' := None)) example_world \<and>
         get_required_env ''TELEGRAM_BOT_TOKEN'' ''Telegram bot token from @BotFather'' example_environ example_world =
           (Inl 1,
            print_line [Lit ''Please set this as a GitHub Secret or in your .env file.'']
              (print_line
                 [Lit ''ERROR: '',
                  Lit (''Required environment variable '' @ [CHR 0x27] @ ''TELEGRAM_BOT_TOKEN'' @ [CHR 0x27] @
                       '' is not set.'' @ (if ''Telegram bot token from @BotFather'' \<noteq> [] then '' '' @ ''Telegram bot token from @BotFather'' else []))] example_world)) \<and>
         program example_environ example_net example_world = program (example_environ(''TELEGRAM_BOT_TOKEN'' := None)) example_net example_world \<and>
         fst (program example_environ example_net example_world) = Exited 1 \<and>
         exit_status (fst (program example_environ example_net example_world)) = 1 \<and>
         state_file (snd (program example_environ example_net example_world)) = state_file example_world \<and>
         requests (snd (program example_environ example_net example_world)) = requests example_world \<and>
         file_writes (snd (program example_environ example_net example_world)) = file_writes example_world"
proof -
  have k: "''TELEGRAM_BOT_TOKEN'' = ''URL'' \<or> ''TELEGRAM_BOT_TOKEN'' = ''TELEGRAM_BOT_TOKEN'' \<or>
           ''TELEGRAM_BOT_TOKEN'' = ''TELEGRAM_CHAT_ID''"
    by simp
  show ?thesis
    by (rule empty_setting_is_treated_as_unset
      [where environ = example_environ and key = "''TELEGRAM_BOT_TOKEN''"
         and description = "''Telegram bot token from @BotFather''"
         and w = example_world and net = example_net, OF k example_environ_token])
qed

end
